theory Spec2Isabelle
  imports Main "HOL-Library.Multiset"
begin

section \<open>The sync-task predicates (client/services/synctask.js)\<close>

text \<open>
  The three functions of \<open>syncTaskService\<close> receive an arbitrary JavaScript value. The
  values that matter are modelled by \<open>jsval\<close>: the two empty values, the primitives, and
  objects as association lists from property names to values (the first binding of a
  name is the one the object holds).
\<close>

datatype jsval =
    Undefined
  | Null
  | Bool bool
  | Num int
  | NaN
  | Str string
  | Obj "(string \<times> jsval) list"

text \<open>\<open>!task\<close> is \<open>\<not> truthy task\<close>: the falsy values are \<open>undefined\<close>, \<open>null\<close>, \<open>false\<close>,
  \<open>0\<close>, \<open>NaN\<close> and the empty string.\<close>

fun truthy :: "jsval \<Rightarrow> bool" where
  "truthy Undefined = False"
| "truthy Null = False"
| "truthy (Bool b) = b"
| "truthy (Num n) = (n \<noteq> 0)"
| "truthy NaN = False"
| "truthy (Str s) = (s \<noteq> [])"
| "truthy (Obj kvs) = True"

datatype js_exception = TypeError

text \<open>
  The property read \<open>v.p\<close>, for a property name \<open>p\<close> that no built-in prototype defines
  (\<open>status\<close> and \<open>_id\<close> are such names): reading from \<open>undefined\<close> or \<open>null\<close> throws a
  TypeError, a primitive has no such property, an object yields its binding or
  \<open>undefined\<close>.
\<close>

fun get_prop :: "jsval \<Rightarrow> string \<Rightarrow> js_exception + jsval" where
  "get_prop Undefined p = Inl TypeError"
| "get_prop Null p = Inl TypeError"
| "get_prop (Obj kvs) p = Inr (case map_of kvs p of None \<Rightarrow> Undefined | Some v \<Rightarrow> v)"
| "get_prop v p = Inr Undefined"

definition isSuccessful :: "jsval \<Rightarrow> js_exception + bool" where
  "isSuccessful task =
     (if \<not> truthy task then Inr False
      else case get_prop task ''status'' of
             Inl e \<Rightarrow> Inl e
           | Inr status \<Rightarrow> Inr (status = Str ''success''))"

definition isFailed :: "jsval \<Rightarrow> js_exception + bool" where
  "isFailed task =
     (if \<not> truthy task then Inr False
      else case get_prop task ''status'' of
             Inl e \<Rightarrow> Inl e
           | Inr status \<Rightarrow> Inr (status = Str ''error''))"

definition getTaskId :: "jsval \<Rightarrow> js_exception + jsval" where
  "getTaskId task =
     (if \<not> truthy task then Inr Null
      else get_prop task ''_id'')"


section \<open>The carelink fetcher (first module of lib/children/fetch.js)\<close>

type_synonym err = string

text \<open>
  \<open>pre.hasProperty(obj, property, message)\<close> of the amoeba library, applied to the value
  \<open>obj[property]\<close>: it throws when that value is \<open>null\<close> or \<open>undefined\<close> (here \<open>None\<close>) and
  returns it otherwise. The thrown error carries the message given, or a default one
  naming the property.
\<close>

definition hasProperty :: "'a option \<Rightarrow> string \<Rightarrow> string option \<Rightarrow> err + 'a" where
  "hasProperty v property message =
     (case v of
        None \<Rightarrow> Inl (case message of
                       None \<Rightarrow> ''property['' @ property @ ''] must be specified''
                     | Some m \<Rightarrow> m)
      | Some x \<Rightarrow> Inr x)"

record carelink_opts =
  username :: "string option"
  password :: "string option"
  daysAgo :: "int option"

definition CARELINK_URLS_security :: string where
  "CARELINK_URLS_security = ''https://carelink.minimed.com/patient/j_security_check''"

definition CARELINK_URLS_login :: string where
  "CARELINK_URLS_login = ''https://carelink.minimed.com/patient/main/login.do''"

definition CARELINK_URLS_csv :: string where
  "CARELINK_URLS_csv = ''https://carelink.minimed.com/patient/main/selectCSV.do''"

text \<open>The form of the CSV request. Dates are day numbers; \<open>m.subtract(n, 'days')\<close> is
  subtraction on them.\<close>

record csv_form =
  report :: int
  listSeparator :: string
  datePicker1 :: int
  datePicker2 :: int

datatype request =
    Post_qs string string string
  | Get string
  | Post_form string csv_form

datatype carelink_result =
    Throws err
  | Cb_error err
  | Cb_stream request

text \<open>\<open>daysAgo || 14\<close> on numbers: the left operand unless it is falsy.\<close>

definition or_default :: "int \<Rightarrow> int \<Rightarrow> int" where
  "or_default a b = (if a = 0 then b else a)"

text \<open>
  The exported function. \<open>today\<close> is the day \<open>moment()\<close> returns; \<open>net\<close> tells for each of
  the first two requests whether it ends in an error. The result is the list of the
  requests issued, in order, and how the call ended: an exception, \<open>cb(err)\<close>, or
  \<open>cb(null, stream)\<close> with the stream of the CSV request.
\<close>

definition carelink_fetch ::
  "int \<Rightarrow> (request \<Rightarrow> err option) \<Rightarrow> carelink_opts \<Rightarrow> request list \<times> carelink_result" where
  "carelink_fetch today net opts =
     (case hasProperty (username opts) ''username'' None of
        Inl e \<Rightarrow> ([], Throws e)
      | Inr user \<Rightarrow>
     (case hasProperty (password opts) ''password'' None of
        Inl e \<Rightarrow> ([], Throws e)
      | Inr pw \<Rightarrow>
     (case hasProperty (daysAgo opts) ''daysAgo'' None of
        Inl e \<Rightarrow> ([], Throws e)
      | Inr days \<Rightarrow>
     (let r1 = Post_qs CARELINK_URLS_security user pw in
      case net r1 of
        Some e \<Rightarrow> ([r1], Cb_error e)
      | None \<Rightarrow>
     (let r2 = Get CARELINK_URLS_login in
      case net r2 of
        Some e \<Rightarrow> ([r1, r2], Cb_error e)
      | None \<Rightarrow>
     (let r3 = Post_form CARELINK_URLS_csv
                 \<lparr>report = 11, listSeparator = '','',
                  datePicker1 = today,
                  datePicker2 = today - or_default days 14\<rparr>
      in ([r1, r2, r3], Cb_stream r3)))))))"


section \<open>The ingestion job (second module of lib/children/fetch.js)\<close>

subsection \<open>Data\<close>

type_synonym blob = string
type_synonym location = string

text \<open>A SourceConfig is an opaque bag of options. The job reads \<open>config.type\<close> (to pick the
  adapter that fetches) and, for dexcom, \<open>config.file\<close> (the staging file).\<close>

record source_config =
  ctype :: "string option"
  cfile :: string
  options :: string

text \<open>The Job Description, as \<open>JSON.parse\<close> returns it. A field that is absent or \<open>null\<close>
  is \<open>None\<close>.\<close>

record job_config =
  groupId :: "string option"
  carelink :: "source_config option"
  diasend :: "source_config option"
  tconnect :: "source_config option"
  dexcom :: "source_config option"

text \<open>A Normalized Event Record: the field \<open>_groupId\<close> and the rest of the record.\<close>

record nrecord =
  r_groupId :: "string option"
  body :: string

text \<open>The objects \<open>download\<close> builds (\<open>locSpec\<close> in \<open>go\<close>). A field the object literal
  does not set is \<open>None\<close>.\<close>

record locSpec =
  source :: string
  location :: "location option"
  config :: "source_config option"

text \<open>
  An adapter of the ingestion library (\<open>antacid\<close> in the code). \<open>antacid.fetch(config, cb)\<close>
  calls back with an error or a data stream. \<open>antacid.parse(blob, config)\<close> returns an
  observable: finitely many records, then completion (\<open>None\<close>) or an error.
\<close>

record adapter =
  antacid_fetch :: "source_config \<Rightarrow> err + blob"
  antacid_parse :: "blob \<Rightarrow> source_config option \<Rightarrow> nrecord list \<times> err option"

text \<open>
  The collaborators of the job: the launch argument, the adapter registry, the database
  client, the blob store, the file system, and whether a call of the record store fails.
\<close>

record env =
  taskStorageDir :: "string option"
  ingestion :: "string \<Rightarrow> adapter option"
  mongoClient_start :: "err option"
  storage_save :: "string option \<Rightarrow> string \<Rightarrow> blob \<Rightarrow> err + location"
  storage_get :: "location option \<Rightarrow> blob"
  fs_unlink :: "string \<Rightarrow> err option"
  deleteData_err :: "string option \<Rightarrow> err option"
  storeData_err :: "nrecord list \<Rightarrow> err option"

text \<open>
  The calls the job makes on its collaborators, in the order it makes them. \<open>AntacidFetch\<close>
  carries the file name of the enclosing \<open>fetch\<close> call, which tells the source key the
  fetch is for. The \<open>log.info\<close> calls are not recorded.
\<close>

datatype event =
    MongoStart
  | AntacidFetch string "string option" source_config
  | StorageSave "string option" string
  | FsUnlink string
  | LogWarn err string
  | DeleteData "string option"
  | AntacidParse string "location option" "source_config option"
  | StoreData "nrecord list"
  | MongoClose
  | WriteErrorJson string string

text \<open>How the process ends: \<open>process.exit(code)\<close>, or an exception that nothing in the file
  catches.\<close>

datatype outcome = Exit int | Uncaught err

record run =
  trace :: "event list"
  outcome :: outcome
  persisted :: "nrecord list"

subsection \<open>The record store\<close>

text \<open>
  Modelled from the spec: \<open>streamDAO.deleteData\<close> and \<open>streamDAO.storeData\<close> live in
  lib/jellyfishStreamDAO.js and lib/streamDAO.js, which are not among the sources. The
  spec gives their contract: \<open>deleteData(groupId)\<close> deletes all previously persisted
  records for the group, \<open>storeData(records)\<close> persists the full collection in one bulk
  call. The persisted records are a list; a call that fails is taken to change nothing.
\<close>

definition deleteData :: "string option \<Rightarrow> nrecord list \<Rightarrow> nrecord list" where
  "deleteData g db = filter (\<lambda>r. r_groupId r \<noteq> g) db"

definition storeData :: "nrecord list \<Rightarrow> nrecord list \<Rightarrow> nrecord list" where
  "storeData records db = db @ records"

definition persisted_for :: "string option \<Rightarrow> nrecord list \<Rightarrow> nrecord list" where
  "persisted_for g db = filter (\<lambda>r. r_groupId r = g) db"

subsection \<open>Callbacks that run later\<close>

text \<open>
  A chain is what one asynchronous activity does after it was started: a finite list of
  steps, then either an error or a quiet end. Several chains run interleaved. The order
  is not fixed by the program, so it is a parameter: a schedule names, step by step, the
  chain that moves next. A step of the schedule that names no chain, or a chain that is
  over, is skipped; when the schedule is used up, the chains that remain run one after the
  other. The first error ends everything (the job exits there).
\<close>

fun drain :: "('a list \<times> 'e option) list \<Rightarrow> 'a list \<times> 'e option" where
  "drain [] = ([], None)"
| "drain ((xs, Some e) # cs) = (xs, Some e)"
| "drain ((xs, None) # cs) = (case drain cs of (ys, r) \<Rightarrow> (xs @ ys, r))"

fun interleave :: "nat list \<Rightarrow> ('a list \<times> 'e option) list \<Rightarrow> 'a list \<times> 'e option" where
  "interleave [] cs = drain cs"
| "interleave (i # sched) cs =
     (if i < length cs then
        (case cs ! i of
           (x # xs, t) \<Rightarrow>
             (case interleave sched (cs[i := (xs, t)]) of (ys, r) \<Rightarrow> (x # ys, r))
         | ([], Some e) \<Rightarrow> ([], Some e)
         | ([], None) \<Rightarrow> interleave sched cs)
      else interleave sched cs)"

text \<open>
  A call that returns at once and finishes in a callback: the events of its synchronous
  part, the events of the callbacks that follow, and how it finishes.
\<close>

datatype 'a async = Async (started: "event list") (later: "event list") (final: 'a)

text \<open>How a callback-taking function finishes: it calls \<open>fail(reason, error)\<close> itself, or it
  calls its callback with \<open>(err, value)\<close>.\<close>

datatype 'a ending = Fail_called string err | Cb "err option" "'a option"

subsection \<open>fail\<close>

definition fail :: "env \<Rightarrow> string \<Rightarrow> err \<Rightarrow> event list \<times> outcome" where
  "fail env reason error =
     ([MongoClose, LogWarn error (''Failing due to error, with reason['' @ reason @ ''].'')]
        @ (case taskStorageDir env of
             None \<Rightarrow> []
           | Some dir \<Rightarrow> [WriteErrorJson dir reason]),
      Exit 255)"

subsection \<open>fetch\<close>

text \<open>\<open>ingestion[type]\<close>: no adapter is registered under an undefined type.\<close>

definition ingestion_at :: "env \<Rightarrow> string option \<Rightarrow> adapter option" where
  "ingestion_at env t = (case t of None \<Rightarrow> None | Some n \<Rightarrow> ingestion env n)"

definition show_type :: "string option \<Rightarrow> string" where
  "show_type t = (case t of None \<Rightarrow> ''undefined'' | Some n \<Rightarrow> n)"

text \<open>\<open>Inl\<close> is the exception thrown for an unknown service.\<close>

definition fetch ::
  "env \<Rightarrow> string option \<Rightarrow> string \<Rightarrow> source_config option \<Rightarrow> err + location ending async" where
  "fetch env gid filename cfg =
     (case cfg of
        None \<Rightarrow> Inr (Async [] [] (Cb None None))
      | Some c \<Rightarrow>
          (case ingestion_at env (ctype c) of
             None \<Rightarrow> Inl (''Unknown service['' @ show_type (ctype c) @ ''] to fetch from.'')
           | Some antacid \<Rightarrow>
               (case antacid_fetch antacid c of
                  Inl err \<Rightarrow>
                    Inr (Async [AntacidFetch filename (ctype c) c] []
                          (Fail_called ''Couldn't fetch!?'' err))
                | Inr dataStream \<Rightarrow>
                    Inr (Async [AntacidFetch filename (ctype c) c] [StorageSave gid filename]
                          (case storage_save env gid filename dataStream of
                             Inl err \<Rightarrow> Cb (Some err) None
                           | Inr loc \<Rightarrow> Cb None (Some loc))))))"

subsection \<open>download\<close>

text \<open>The callback of the first three tasks:
  \<open>function (err, loc) { cb(err, loc == null ? loc : { ... }); }\<close>.\<close>

definition describe ::
  "(location \<Rightarrow> locSpec) \<Rightarrow> err + location ending async \<Rightarrow> err + locSpec ending async" where
  "describe mk r =
     (case r of
        Inl e \<Rightarrow> Inl e
      | Inr (Async s l fin) \<Rightarrow>
          Inr (Async s l
                (case fin of
                   Fail_called reason error \<Rightarrow> Fail_called reason error
                 | Cb err loc \<Rightarrow> Cb err (case loc of None \<Rightarrow> None | Some x \<Rightarrow> Some (mk x)))))"

definition carelink_task :: "env \<Rightarrow> job_config \<Rightarrow> err + locSpec ending async" where
  "carelink_task env cfg =
     describe (\<lambda>loc. \<lparr>source = ''carelink'', location = Some loc, config = carelink cfg\<rparr>)
       (fetch env (groupId cfg) ''carelink.csv'' (carelink cfg))"

definition diasend_task :: "env \<Rightarrow> job_config \<Rightarrow> err + locSpec ending async" where
  "diasend_task env cfg =
     describe (\<lambda>loc. \<lparr>source = ''diasend'', location = Some loc, config = diasend cfg\<rparr>)
       (fetch env (groupId cfg) ''diasend.xls'' (diasend cfg))"

definition tconnect_task :: "env \<Rightarrow> job_config \<Rightarrow> err + locSpec ending async" where
  "tconnect_task env cfg =
     describe (\<lambda>loc. \<lparr>source = ''tconnect'', location = Some loc, config = None\<rparr>)
       (fetch env (groupId cfg) ''tconnect.xml'' (tconnect cfg))"

definition dexcom_task :: "env \<Rightarrow> job_config \<Rightarrow> err + locSpec ending async" where
  "dexcom_task env cfg =
     (case dexcom cfg of
        None \<Rightarrow> Inr (Async [] [] (Cb None None))
      | Some dex \<Rightarrow>
          (case fetch env (groupId cfg) ''dexcom.csv'' (dexcom cfg) of
             Inl e \<Rightarrow> Inl e
           | Inr (Async s l fin) \<Rightarrow>
               (case fin of
                  Fail_called reason error \<Rightarrow> Inr (Async s l (Fail_called reason error))
                | Cb err loc \<Rightarrow>
                    Inr (Async s
                          (l @ FsUnlink (cfile dex)
                             # (case fs_unlink env (cfile dex) of
                                  None \<Rightarrow> []
                                | Some error \<Rightarrow>
                                    [LogWarn error (''error deleting file['' @ cfile dex @ '']'')]))
                          (Cb err (Some \<lparr>source = ''dexcom'', location = loc,
                                         config = dexcom cfg\<rparr>))))))"

text \<open>
  \<open>async.parallel\<close> starts its tasks in order. A task that throws ends the job there: the
  tasks after it are never started.
\<close>

fun start_tasks :: "(err + 'a async) list \<Rightarrow> event list \<times> (err + 'a async list)" where
  "start_tasks [] = ([], Inr [])"
| "start_tasks (Inl e # ts) = ([], Inl e)"
| "start_tasks (Inr a # ts) =
     (case start_tasks ts of
        (evs, Inl e) \<Rightarrow> (started a @ evs, Inl e)
      | (evs, Inr as) \<Rightarrow> (started a @ evs, Inr (a # as)))"

text \<open>
  What a started task does later, as a chain. Its error, if any, is the pair
  \<open>(reason, error)\<close> that \<open>fail\<close> receives: from \<open>fetch\<close> itself, or from the final callback
  of \<open>async.parallel\<close>, which calls \<open>fail(error.message, error)\<close> (an error is its message
  here).
\<close>

fun chain_of :: "'a ending async \<Rightarrow> event list \<times> (string \<times> err) option" where
  "chain_of (Async s l (Fail_called reason error)) = (l, Some (reason, error))"
| "chain_of (Async s l (Cb (Some error) v)) = (l, Some (error, error))"
| "chain_of (Async s l (Cb None v)) = (l, None)"

fun result_of :: "'a ending async \<Rightarrow> 'a option" where
  "result_of (Async s l (Fail_called reason error)) = None"
| "result_of (Async s l (Cb err v)) = v"

text \<open>
  \<open>Inl\<close> is the end of the process inside \<open>download\<close>; \<open>Inr\<close> is
  \<open>callback(null, locations.filter(...))\<close>.
\<close>

definition download ::
  "env \<Rightarrow> nat list \<Rightarrow> job_config \<Rightarrow> event list \<times> (outcome + locSpec list)" where
  "download env sched cfg =
     (case start_tasks [carelink_task env cfg, diasend_task env cfg,
                        tconnect_task env cfg, dexcom_task env cfg] of
        (evs, Inl e) \<Rightarrow> (evs, Inl (Uncaught e))
      | (evs, Inr tasks) \<Rightarrow>
          (case interleave sched (map chain_of tasks) of
             (evs', Some (reason, error)) \<Rightarrow>
               (case fail env reason error of (fevs, oc) \<Rightarrow> (evs @ evs' @ fevs, Inl oc))
           | (evs', None) \<Rightarrow> (evs @ evs', Inr (List.map_filter result_of tasks))))"

subsection \<open>removeData\<close>

definition removeData ::
  "env \<Rightarrow> string option \<Rightarrow> nrecord list \<Rightarrow> event list \<times> err option \<times> nrecord list" where
  "removeData env gid db =
     ([DeleteData gid],
      (case deleteData_err env gid of
         Some err \<Rightarrow> (Some err, db)
       | None \<Rightarrow> (None, deleteData gid db)))"

subsection \<open>go\<close>

text \<open>
  The selector of \<open>flatMap\<close> and the observable it returns, as a chain: the call of the
  parser, then its records. An exception thrown by the selector reaches the subscriber's
  error handler, as an error of the observable does.
\<close>

definition parse_chain :: "env \<Rightarrow> locSpec \<Rightarrow> (event + nrecord) list \<times> err option" where
  "parse_chain env spec =
     (case ingestion env (source spec) of
        None \<Rightarrow> ([], Some (''Unknown data source['' @ source spec @ '']''))
      | Some antacid \<Rightarrow>
          (case antacid_parse antacid (storage_get env (location spec)) (config spec) of
             (records, t) \<Rightarrow>
               (Inl (AntacidParse (source spec) (location spec) (config spec)) # map Inr records,
                t)))"

fun events_of :: "(event + nrecord) list \<Rightarrow> event list" where
  "events_of [] = []"
| "events_of (Inl e # xs) = e # events_of xs"
| "events_of (Inr r # xs) = events_of xs"

fun records_of :: "(event + nrecord) list \<Rightarrow> nrecord list" where
  "records_of [] = []"
| "records_of (Inl e # xs) = records_of xs"
| "records_of (Inr r # xs) = r # records_of xs"

text \<open>
  One run of \<open>go\<close> on the persisted records \<open>db\<close>. \<open>fsched\<close> orders the callbacks of the
  fetches, \<open>psched\<close> the items of the parsers. \<open>process.exit\<close> ends the process, so nothing
  follows a call of \<open>fail\<close>.
\<close>

definition go :: "env \<Rightarrow> nat list \<Rightarrow> nat list \<Rightarrow> job_config \<Rightarrow> nrecord list \<Rightarrow> run" where
  "go env fsched psched cfg db =
     (case mongoClient_start env of
        Some err \<Rightarrow>
          (case fail env ''Just another error'' err of
             (fevs, oc) \<Rightarrow> \<lparr>trace = MongoStart # fevs, outcome = oc, persisted = db\<rparr>)
      | None \<Rightarrow>
     (case download env fsched cfg of
        (devs, Inl oc) \<Rightarrow> \<lparr>trace = MongoStart # devs, outcome = oc, persisted = db\<rparr>
      | (devs, Inr files) \<Rightarrow>
     (case removeData env (groupId cfg) db of
        (revs, Some err, db') \<Rightarrow>
          (case fail env ''Just another error'' err of
             (fevs, oc) \<Rightarrow>
               \<lparr>trace = MongoStart # devs @ revs @ fevs, outcome = oc, persisted = db'\<rparr>)
      | (revs, None, db') \<Rightarrow>
     (case interleave psched (map (parse_chain env) files) of
        (items, Some err) \<Rightarrow>
          (case fail env ''Problem parsing data'' err of
             (fevs, oc) \<Rightarrow>
               \<lparr>trace = MongoStart # devs @ revs @ events_of items @ fevs,
                outcome = oc, persisted = db'\<rparr>)
      | (items, None) \<Rightarrow>
     (let resultsArray = map (\<lambda>e. e\<lparr>r_groupId := groupId cfg\<rparr>) (records_of items) in
      if length resultsArray = 0 then
        (case fail env ''No results'' ''No results'' of
           (fevs, oc) \<Rightarrow>
             \<lparr>trace = MongoStart # devs @ revs @ events_of items @ fevs,
              outcome = oc, persisted = db'\<rparr>)
      else
        (case storeData_err env resultsArray of
           Some err \<Rightarrow>
             (case fail env ''Problem with DB, Oh Noes!'' err of
                (fevs, oc) \<Rightarrow>
                  \<lparr>trace = MongoStart # devs @ revs @ events_of items
                             @ StoreData resultsArray # fevs,
                   outcome = oc, persisted = db'\<rparr>)
         | None \<Rightarrow>
             \<lparr>trace = MongoStart # devs @ revs @ events_of items
                        @ [StoreData resultsArray, MongoClose],
              outcome = Exit 0,
              persisted = storeData resultsArray db'\<rparr>))))))"

subsection \<open>The handler of the job input\<close>

text \<open>
  The \<open>data\<close> handler of \<open>process.stdin\<close>, from the point where \<open>JSON.parse\<close> has returned
  the Job Description \<open>cfg\<close>. The exception of \<open>pre.hasProperty\<close> is caught nowhere.
\<close>

definition stdin_data :: "env \<Rightarrow> nat list \<Rightarrow> nat list \<Rightarrow> job_config \<Rightarrow> nrecord list \<Rightarrow> run" where
  "stdin_data env fsched psched cfg db =
     (case hasProperty (groupId cfg) ''groupId'' (Some ''groupId is a required property'') of
        Inl e \<Rightarrow> \<lparr>trace = [], outcome = Uncaught e, persisted = db\<rparr>
      | Inr g \<Rightarrow> go env fsched psched cfg db)"

subsection \<open>Kinds of events\<close>

fun is_fetch :: "event \<Rightarrow> bool" where
  "is_fetch (AntacidFetch f t c) = True"
| "is_fetch (StorageSave g f) = True"
| "is_fetch e = False"

fun is_parse :: "event \<Rightarrow> bool" where
  "is_parse (AntacidParse s l c) = True"
| "is_parse e = False"

fun is_delete :: "event \<Rightarrow> bool" where
  "is_delete (DeleteData g) = True"
| "is_delete e = False"

fun is_store :: "event \<Rightarrow> bool" where
  "is_store (StoreData rs) = True"
| "is_store e = False"

fun is_unlink :: "event \<Rightarrow> bool" where
  "is_unlink (FsUnlink f) = True"
| "is_unlink e = False"

text \<open>The events of the fetch stage: what \<open>fetch\<close> and the tasks of \<open>download\<close> do.\<close>

fun download_event :: "event \<Rightarrow> bool" where
  "download_event (AntacidFetch f t c) = True"
| "download_event (StorageSave g f) = True"
| "download_event (FsUnlink f) = True"
| "download_event (LogWarn e m) = True"
| "download_event e = False"

text \<open>The events of \<open>fail\<close>.\<close>

fun fail_event :: "event \<Rightarrow> bool" where
  "fail_event MongoClose = True"
| "fail_event (LogWarn e m) = True"
| "fail_event (WriteErrorJson d r) = True"
| "fail_event e = False"

text \<open>A fetch that ends with \<open>cb(null, loc)\<close>; for a source that is not configured, the
  \<open>cb()\<close> of the next tick.\<close>

definition fetched :: "env \<Rightarrow> string option \<Rightarrow> string \<Rightarrow> source_config option \<Rightarrow> bool" where
  "fetched env gid filename cfg =
     (case fetch env gid filename cfg of
        Inr (Async s l (Cb None v)) \<Rightarrow> True
      | _ \<Rightarrow> False)"

subsection \<open>Concrete collaborators and jobs\<close>

definition three_records :: "nrecord list" where
  "three_records =
     [\<lparr>r_groupId = None, body = ''smbg''\<rparr>,
      \<lparr>r_groupId = Some ''other'', body = ''bolus''\<rparr>,
      \<lparr>r_groupId = None, body = ''basal''\<rparr>]"

definition good_adapter :: adapter where
  "good_adapter =
     \<lparr>antacid_fetch = (\<lambda>c. Inr ''payload''),
      antacid_parse = (\<lambda>b c. (three_records, None))\<rparr>"

definition failing_adapter :: adapter where
  "failing_adapter =
     \<lparr>antacid_fetch = (\<lambda>c. Inl ''ECONNRESET''),
      antacid_parse = (\<lambda>b c. ([], Some ''bad payload''))\<rparr>"

definition good_env :: env where
  "good_env =
     \<lparr>taskStorageDir = Some ''/tmp/task'',
      ingestion = (\<lambda>n. if n = ''broken'' then Some failing_adapter
                        else if n = ''nosuch'' then None
                        else Some good_adapter),
      mongoClient_start = None,
      storage_save = (\<lambda>g f b. Inr (''blob:'' @ f)),
      storage_get = (\<lambda>l. ''payload''),
      fs_unlink = (\<lambda>f. Some ''ENOENT''),
      deleteData_err = (\<lambda>g. None),
      storeData_err = (\<lambda>rs. None)\<rparr>"

definition carelink_config :: source_config where
  "carelink_config = \<lparr>ctype = Some ''carelink'', cfile = [], options = ''u:p''\<rparr>"

definition tconnect_config :: source_config where
  "tconnect_config = \<lparr>ctype = Some ''tconnect'', cfile = [], options = ''u:p''\<rparr>"

definition broken_dexcom_config :: source_config where
  "broken_dexcom_config = \<lparr>ctype = Some ''broken'', cfile = ''/tmp/dexcom.csv'', options = []\<rparr>"

definition dexcom_config :: source_config where
  "dexcom_config = \<lparr>ctype = Some ''dexcom'', cfile = ''/tmp/dexcom.csv'', options = []\<rparr>"

definition job_g1 :: job_config where
  "job_g1 = \<lparr>groupId = Some ''g1'', carelink = Some carelink_config, diasend = None,
             tconnect = None, dexcom = None\<rparr>"

definition job_g2 :: job_config where
  "job_g2 = \<lparr>groupId = Some ''g2'', carelink = None, diasend = None,
             tconnect = None, dexcom = None\<rparr>"

definition job_no_group :: job_config where
  "job_no_group = \<lparr>groupId = None, carelink = Some carelink_config, diasend = None,
                   tconnect = None, dexcom = None\<rparr>"

definition job_tconnect :: job_config where
  "job_tconnect = \<lparr>groupId = Some ''g3'', carelink = None, diasend = None,
                   tconnect = Some tconnect_config, dexcom = None\<rparr>"

definition job_dexcom_broken :: job_config where
  "job_dexcom_broken = \<lparr>groupId = Some ''g4'', carelink = None, diasend = None,
                        tconnect = None, dexcom = Some broken_dexcom_config\<rparr>"

definition job_dexcom :: job_config where
  "job_dexcom = \<lparr>groupId = Some ''g5'', carelink = None, diasend = None,
                 tconnect = None, dexcom = Some dexcom_config\<rparr>"

definition old_db :: "nrecord list" where
  "old_db =
     [\<lparr>r_groupId = Some ''g1'', body = ''old''\<rparr>,
      \<lparr>r_groupId = Some ''g2'', body = ''stale''\<rparr>,
      \<lparr>r_groupId = Some ''g9'', body = ''kept''\<rparr>]"


definition half_adapter :: adapter where
  "half_adapter =
     \<lparr>antacid_fetch = (\<lambda>c. Inr ''payload''),
      antacid_parse = (\<lambda>b c. ([\<lparr>r_groupId = None, body = ''cbg''\<rparr>], Some ''bad row''))\<rparr>"

definition flaky_env :: env where
  "flaky_env =
     good_env\<lparr>ingestion := (\<lambda>n. if n = ''diasend'' then Some half_adapter
                                 else ingestion good_env n)\<rparr>"

definition full_env :: env where
  "full_env = good_env\<lparr>storage_save := (\<lambda>g f b. Inl ''disk full'')\<rparr>"

definition diasend_config :: source_config where
  "diasend_config = \<lparr>ctype = Some ''diasend'', cfile = [], options = ''u:p''\<rparr>"

definition nosuch_config :: source_config where
  "nosuch_config = \<lparr>ctype = Some ''nosuch'', cfile = [], options = ''u:p''\<rparr>"

definition job_diasend :: job_config where
  "job_diasend = \<lparr>groupId = Some ''g1'', carelink = None, diasend = Some diasend_config,
                  tconnect = None, dexcom = None\<rparr>"

definition job_unknown :: job_config where
  "job_unknown = \<lparr>groupId = Some ''g6'', carelink = Some carelink_config,
                  diasend = Some nosuch_config, tconnect = None, dexcom = None\<rparr>"

definition readonly_env :: env where
  "readonly_env = good_env\<lparr>storeData_err := (\<lambda>rs. Some ''write failed'')\<rparr>"

section \<open>Properties\<close>

subsection \<open>Interleaving\<close>

lemma drain_end: "snd (drain cs) = None \<longleftrightarrow> (\<forall>c\<in>set cs. snd c = None)"
  by (induction cs rule: drain.induct) (auto split: prod.splits)

lemma update_ends:
  assumes "i < length cs" "cs ! i = (x # xs, t)"
  shows "map snd (cs[i := (xs, t)]) = map snd cs"
  using assms by (simp add: map_update list_update_same_conv)

lemma all_ends: "(\<forall>c\<in>set cs. snd c = None) \<longleftrightarrow> set (map snd cs) \<subseteq> {None}"
  by auto

lemma interleave_end: "snd (interleave s cs) = None \<longleftrightarrow> (\<forall>c\<in>set cs. snd c = None)"
proof (induction s arbitrary: cs)
  case Nil
  show ?case by (simp add: drain_end)
next
  case (Cons i s)
  note IH = Cons.IH
  show ?case
  proof (cases "i < length cs")
    case False
    then show ?thesis using IH by simp
  next
    case True
    obtain ys t where ci: "cs ! i = (ys, t)" by (cases "cs ! i")
    have mem: "cs ! i \<in> set cs" using True by simp
    show ?thesis
    proof (cases ys)
      case Nil
      then show ?thesis using True ci mem IH [of cs]
        by (cases t) (auto simp: rev_bexI)
    next
      case (Cons x xs)
      have "map snd (cs[i := (xs, t)]) = map snd cs"
        using True ci Cons by (simp add: update_ends)
      then have "(\<forall>c\<in>set (cs[i := (xs, t)]). snd c = None) \<longleftrightarrow> (\<forall>c\<in>set cs. snd c = None)"
        unfolding all_ends by simp
      then show ?thesis using True ci Cons IH [of "cs[i := (xs, t)]"]
        by (simp add: split_beta)
    qed
  qed
qed

lemma drain_error: "snd (drain cs) = Some e \<Longrightarrow> \<exists>c\<in>set cs. snd c = Some e"
  by (induction cs rule: drain.induct) (auto split: prod.splits)

lemma interleave_error: "snd (interleave s cs) = Some e \<Longrightarrow> \<exists>c\<in>set cs. snd c = Some e"
proof (induction s arbitrary: cs)
  case Nil
  then show ?case by (simp add: drain_error)
next
  case (Cons i s)
  note IH = Cons.IH and prems = Cons.prems
  show ?case
  proof (cases "i < length cs")
    case False
    then show ?thesis using IH prems by simp
  next
    case True
    obtain ys t where ci: "cs ! i = (ys, t)" by (cases "cs ! i")
    have mem: "cs ! i \<in> set cs" using True by simp
    show ?thesis
    proof (cases ys)
      case Nil
      then show ?thesis using True ci mem IH [of cs] prems
        by (cases t) (auto simp: rev_bexI)
    next
      case (Cons x xs)
      have m: "map snd (cs[i := (xs, t)]) = map snd cs"
        using True ci Cons by (simp add: update_ends)
      have "snd (interleave s (cs[i := (xs, t)])) = Some e"
        using True ci Cons prems by (simp add: split_beta)
      then have "\<exists>c\<in>set (cs[i := (xs, t)]). snd c = Some e" by (rule IH)
      then have "Some e \<in> set (map snd (cs[i := (xs, t)]))" by force
      then have "Some e \<in> set (map snd cs)" using m by simp
      then show ?thesis by force
    qed
  qed
qed

lemma update_items:
  assumes "i < length cs" "cs ! i = (x # xs, t)"
  shows "mset (concat (map fst cs)) = add_mset x (mset (concat (map fst (cs[i := (xs, t)]))))"
proof -
  have a: "cs = take i cs @ cs ! i # drop (Suc i) cs"
    using assms(1) by (simp add: id_take_nth_drop)
  have b: "cs[i := (xs, t)] = take i cs @ (xs, t) # drop (Suc i) cs"
    using assms(1) by (simp add: upd_conv_take_nth_drop)
  have "mset (concat (map fst cs))
      = mset (concat (map fst (take i cs @ cs ! i # drop (Suc i) cs)))"
    using a by simp
  also have "\<dots> = add_mset x (mset (concat (map fst (take i cs @ (xs, t) # drop (Suc i) cs))))"
    using assms(2) by simp
  finally show ?thesis using b by simp
qed

lemma drain_items_sub: "mset (fst (drain cs)) \<subseteq># mset (concat (map fst cs))"
  by (induction cs rule: drain.induct) (auto split: prod.splits simp: subset_mset.add_increasing2)

lemma drain_items: "\<forall>c\<in>set cs. snd c = None \<Longrightarrow> fst (drain cs) = concat (map fst cs)"
  by (induction cs rule: drain.induct) (auto split: prod.splits)

lemma interleave_items_sub: "mset (fst (interleave s cs)) \<subseteq># mset (concat (map fst cs))"
proof (induction s arbitrary: cs)
  case Nil
  show ?case by (simp add: drain_items_sub)
next
  case (Cons i s)
  note IH = Cons.IH
  show ?case
  proof (cases "i < length cs")
    case False
    then show ?thesis using IH by simp
  next
    case True
    obtain ys t where ci: "cs ! i = (ys, t)" by (cases "cs ! i")
    show ?thesis
    proof (cases ys)
      case Nil
      then show ?thesis using True ci IH [of cs]
        by (cases t) auto
    next
      case (Cons x xs)
      then show ?thesis
        using True ci IH [of "cs[i := (xs, t)]"] update_items [of i cs x xs t]
        by (simp add: split_beta)
    qed
  qed
qed

lemma interleave_items:
  "\<forall>c\<in>set cs. snd c = None \<Longrightarrow> mset (fst (interleave s cs)) = mset (concat (map fst cs))"
proof (induction s arbitrary: cs)
  case Nil
  then show ?case by (simp add: drain_items)
next
  case (Cons i s)
  note IH = Cons.IH and prems = Cons.prems
  show ?case
  proof (cases "i < length cs")
    case False
    then show ?thesis using IH prems by simp
  next
    case True
    obtain ys t where ci: "cs ! i = (ys, t)" by (cases "cs ! i")
    have mem: "cs ! i \<in> set cs" using True by simp
    show ?thesis
    proof (cases ys)
      case Nil
      then show ?thesis using True ci IH [of cs] prems mem
        by (cases t) auto
    next
      case (Cons x xs)
      have "map snd (cs[i := (xs, t)]) = map snd cs"
        using True ci Cons by (simp add: update_ends)
      then have "\<forall>c\<in>set (cs[i := (xs, t)]). snd c = None"
        using prems unfolding all_ends by simp
      then have "mset (fst (interleave s (cs[i := (xs, t)])))
          = mset (concat (map fst (cs[i := (xs, t)])))"
        by (rule IH)
      then show ?thesis
        using True ci Cons update_items [of i cs x xs t]
        by (simp add: split_beta)
    qed
  qed
qed

subsection \<open>The sync-task predicates\<close>

text \<open>
  C9. The three functions never throw. \<open>isSuccessful(task)\<close> is true exactly when \<open>task\<close>
  is neither \<open>null\<close> nor \<open>undefined\<close> and \<open>task.status\<close> is the string \<open>success\<close>;
  \<open>isFailed(task)\<close> is true exactly when \<open>task\<close> is neither \<open>null\<close> nor \<open>undefined\<close> and
  \<open>task.status\<close> is the string \<open>error\<close>; no task is both successful and failed; for
  \<open>null\<close> and for \<open>undefined\<close> both predicates are false and \<open>getTaskId\<close> returns \<open>null\<close>.
\<close>

theorem synctask_predicates:
  "isSuccessful task =
     Inr (task \<noteq> Null \<and> task \<noteq> Undefined \<and> get_prop task ''status'' = Inr (Str ''success''))
   \<and> isFailed task =
     Inr (task \<noteq> Null \<and> task \<noteq> Undefined \<and> get_prop task ''status'' = Inr (Str ''error''))
   \<and> (isSuccessful task, isFailed task) \<noteq> (Inr True, Inr True)
   \<and> (\<exists>v. getTaskId task = Inr v)
   \<and> isSuccessful Null = Inr False \<and> isFailed Null = Inr False \<and> getTaskId Null = Inr Null
   \<and> isSuccessful Undefined = Inr False \<and> isFailed Undefined = Inr False
   \<and> getTaskId Undefined = Inr Null"
  by (cases task) (auto simp: isSuccessful_def isFailed_def getTaskId_def split: option.splits)

subsection \<open>The carelink fetcher\<close>

text \<open>
  C10. When \<open>username\<close>, \<open>password\<close> or \<open>daysAgo\<close> is missing from the options, the carelink
  fetcher throws and no request has been issued. When all three are present and the two
  login requests succeed, the CSV request asks for the days from today back to \<open>daysAgo\<close>
  days ago, and back to 14 days ago when \<open>daysAgo\<close> is \<open>0\<close>.
\<close>

theorem carelink_fetch_options:
  "(username opts = None \<or> password opts = None \<or> daysAgo opts = None
      \<longrightarrow> (\<exists>e. carelink_fetch today net opts = ([], Throws e)))
   \<and> (username opts = Some u \<and> password opts = Some p \<and> daysAgo opts = Some d
        \<and> net (Post_qs CARELINK_URLS_security u p) = None
        \<and> net (Get CARELINK_URLS_login) = None
      \<longrightarrow> (\<exists>form. snd (carelink_fetch today net opts) = Cb_stream (Post_form CARELINK_URLS_csv form)
            \<and> last (fst (carelink_fetch today net opts)) = Post_form CARELINK_URLS_csv form
            \<and> datePicker1 form = today
            \<and> datePicker2 form = today - (if d = 0 then 14 else d)))"
  by (auto simp: carelink_fetch_def hasProperty_def or_default_def Let_def split: option.splits)

theorem carelink_fetch_options_witness:
  "carelink_fetch 100 (\<lambda>r. None) \<lparr>username = Some ''u'', password = None, daysAgo = Some 3\<rparr>
     = ([], Throws ''property[password] must be specified'')
   \<and> snd (carelink_fetch 100 (\<lambda>r. None)
          \<lparr>username = Some ''u'', password = Some ''p'', daysAgo = Some 0\<rparr>)
     = Cb_stream (Post_form CARELINK_URLS_csv
         \<lparr>report = 11, listSeparator = '','', datePicker1 = 100, datePicker2 = 86\<rparr>)"
  using carelink_fetch_options
      [where opts = "\<lparr>username = Some ''u'', password = None, daysAgo = Some 3\<rparr>"
         and net = "\<lambda>r. None" and today = 100]
    carelink_fetch_options
      [where opts = "\<lparr>username = Some ''u'', password = Some ''p'', daysAgo = Some 0\<rparr>"
         and u = "''u''" and p = "''p''" and d = 0 and net = "\<lambda>r. None" and today = 100]
  by (auto simp: carelink_fetch_def hasProperty_def or_default_def Let_def)

subsection \<open>The fetch stage\<close>

lemma fail_outcome: "snd (fail env reason error) = Exit 255"
  by (simp add: fail_def)

lemma fail_events: "\<forall>e\<in>set (fst (fail env reason error)). fail_event e"
  by (auto simp: fail_def split: option.splits)

lemma fetch_events:
  "fetch env gid f c = Inr a \<Longrightarrow>
     (\<forall>e\<in>set (started a). download_event e) \<and> (\<forall>e\<in>set (later a). download_event e)"
  by (auto simp: fetch_def split: option.splits sum.splits)

lemma describe_events:
  "describe mk r = Inr a \<Longrightarrow> \<exists>b. r = Inr b \<and> started a = started b \<and> later a = later b"
  by (auto simp: describe_def split: sum.splits async.splits)

lemma carelink_task_events:
  "carelink_task env cfg = Inr a \<Longrightarrow>
     (\<forall>e\<in>set (started a). download_event e) \<and> (\<forall>e\<in>set (later a). download_event e)"
  unfolding carelink_task_def by (metis describe_events fetch_events)

lemma diasend_task_events:
  "diasend_task env cfg = Inr a \<Longrightarrow>
     (\<forall>e\<in>set (started a). download_event e) \<and> (\<forall>e\<in>set (later a). download_event e)"
  unfolding diasend_task_def by (metis describe_events fetch_events)

lemma tconnect_task_events:
  "tconnect_task env cfg = Inr a \<Longrightarrow>
     (\<forall>e\<in>set (started a). download_event e) \<and> (\<forall>e\<in>set (later a). download_event e)"
  unfolding tconnect_task_def by (metis describe_events fetch_events)

lemma dexcom_task_events:
  "dexcom_task env cfg = Inr a \<Longrightarrow>
     (\<forall>e\<in>set (started a). download_event e) \<and> (\<forall>e\<in>set (later a). download_event e)"
  using fetch_events [of env "groupId cfg" "''dexcom.csv''" "dexcom cfg"]
  by (auto simp: dexcom_task_def split: option.splits sum.splits async.splits ending.splits)

lemma start_tasks_Inr:
  "start_tasks ts = (evs, Inr as) \<Longrightarrow> ts = map Inr as \<and> evs = concat (map started as)"
  by (induction ts arbitrary: evs as rule: start_tasks.induct)
     (auto split: prod.splits sum.splits)

lemma start_tasks_events:
  "\<forall>t\<in>set ts. \<forall>a. t = Inr a \<longrightarrow> (\<forall>e\<in>set (started a). download_event e) \<Longrightarrow>
     \<forall>e\<in>set (fst (start_tasks ts)). download_event e"
  by (induction ts rule: start_tasks.induct) (auto split: prod.splits sum.splits)

lemma start_tasks_Inl:
  "start_tasks ts = (evs, Inl e) \<Longrightarrow> Inl e \<in> set ts"
  by (induction ts arbitrary: evs rule: start_tasks.induct) (auto split: prod.splits sum.splits)

lemma chain_of_events: "fst (chain_of a) = later a"
  by (cases a rule: chain_of.cases) auto


lemma chain_of_Cb [simp]: "snd (chain_of (Async s l (Cb err v))) = None \<longleftrightarrow> err = None"
  by (cases err) auto

lemma fetch_ok:
  "fetch env gid f c = Inr (Async s l (Cb None v)) \<Longrightarrow> (v = None \<longleftrightarrow> c = None)"
  by (auto simp: fetch_def split: option.splits sum.splits)

lemma fetched_iff:
  "fetched env gid f c \<longleftrightarrow> (\<exists>s l v. fetch env gid f c = Inr (Async s l (Cb None v)))"
  by (auto simp: fetched_def split: sum.splits async.splits ending.splits option.splits)

lemma describe_ok:
  assumes "describe mk r = Inr a" "snd (chain_of a) = None"
  shows "\<exists>s l v. r = Inr (Async s l (Cb None v)) \<and> result_of a = map_option mk v"
  using assms
  by (auto simp: describe_def split: sum.splits async.splits ending.splits option.splits)

lemma carelink_task_ok:
  assumes "carelink_task env cfg = Inr a" "snd (chain_of a) = None"
  shows "\<exists>s l v. fetch env (groupId cfg) ''carelink.csv'' (carelink cfg) = Inr (Async s l (Cb None v))
           \<and> result_of a = map_option
                (\<lambda>loc. \<lparr>source = ''carelink'', location = Some loc, config = carelink cfg\<rparr>) v"
  using assms unfolding carelink_task_def by (rule describe_ok)

lemma diasend_task_ok:
  assumes "diasend_task env cfg = Inr a" "snd (chain_of a) = None"
  shows "\<exists>s l v. fetch env (groupId cfg) ''diasend.xls'' (diasend cfg) = Inr (Async s l (Cb None v))
           \<and> result_of a = map_option
                (\<lambda>loc. \<lparr>source = ''diasend'', location = Some loc, config = diasend cfg\<rparr>) v"
  using assms unfolding diasend_task_def by (rule describe_ok)

lemma tconnect_task_ok:
  assumes "tconnect_task env cfg = Inr a" "snd (chain_of a) = None"
  shows "\<exists>s l v. fetch env (groupId cfg) ''tconnect.xml'' (tconnect cfg) = Inr (Async s l (Cb None v))
           \<and> result_of a = map_option
                (\<lambda>loc. \<lparr>source = ''tconnect'', location = Some loc, config = None\<rparr>) v"
  using assms unfolding tconnect_task_def by (rule describe_ok)

lemma dexcom_task_ok:
  assumes "dexcom_task env cfg = Inr a" "snd (chain_of a) = None"
  shows "\<exists>s l v. fetch env (groupId cfg) ''dexcom.csv'' (dexcom cfg) = Inr (Async s l (Cb None v))
           \<and> result_of a = map_option
                (\<lambda>loc. \<lparr>source = ''dexcom'', location = Some loc, config = dexcom cfg\<rparr>) v"
proof (cases "dexcom cfg")
  case None
  then show ?thesis using assms by (auto simp: dexcom_task_def fetch_def)
next
  case (Some dex)
  then show ?thesis using assms fetch_ok [of env "groupId cfg" "''dexcom.csv''" "dexcom cfg"]
    by (auto simp: dexcom_task_def split: sum.splits async.splits ending.splits)
qed

text \<open>What \<open>download\<close> does when it calls back.\<close>

lemma download_Inr:
  assumes "download env sched cfg = (evs, Inr files)"
  shows "\<exists>a1 a2 a3 a4.
           carelink_task env cfg = Inr a1 \<and> diasend_task env cfg = Inr a2
         \<and> tconnect_task env cfg = Inr a3 \<and> dexcom_task env cfg = Inr a4
         \<and> snd (chain_of a1) = None \<and> snd (chain_of a2) = None
         \<and> snd (chain_of a3) = None \<and> snd (chain_of a4) = None
         \<and> files = List.map_filter result_of [a1, a2, a3, a4]
         \<and> mset evs = mset (started a1 @ started a2 @ started a3 @ started a4)
                      + mset (later a1 @ later a2 @ later a3 @ later a4)"
proof -
  let ?ts = "[carelink_task env cfg, diasend_task env cfg, tconnect_task env cfg, dexcom_task env cfg]"
  obtain sevs r where st: "start_tasks ?ts = (sevs, r)" by (cases "start_tasks ?ts")
  obtain as where r: "r = Inr as"
    using assms st by (cases r) (auto simp: download_def)
  obtain levs t where il: "interleave sched (map chain_of as) = (levs, t)"
    by (cases "interleave sched (map chain_of as)")
  have t: "t = None" and evs: "evs = sevs @ levs" and files: "files = List.map_filter result_of as"
    using assms st r il by (auto simp: download_def split: option.splits prod.splits)
  have ts: "?ts = map Inr as" and sevs: "sevs = concat (map started as)"
    using start_tasks_Inr [of ?ts sevs as] st r by auto
  obtain a1 a2 a3 a4 where as: "as = [a1, a2, a3, a4]"
    using ts by (auto simp: map_eq_Cons_conv)
  have ends: "\<forall>c\<in>set (map chain_of as). snd c = None"
    using il t interleave_end [of sched "map chain_of as"] by simp
  have "mset levs = mset (concat (map fst (map chain_of as)))"
    using interleave_items [OF ends, of sched] il by simp
  then have levs: "mset levs = mset (later a1 @ later a2 @ later a3 @ later a4)"
    using as by (simp add: chain_of_events)
  show ?thesis
    using ts as ends files evs sevs levs by auto
qed

lemma download_Inr_events:
  assumes "download env sched cfg = (evs, Inr files)"
  shows "\<forall>e\<in>set evs. download_event e"
proof -
  obtain a1 a2 a3 a4 where
    t: "carelink_task env cfg = Inr a1" "diasend_task env cfg = Inr a2"
       "tconnect_task env cfg = Inr a3" "dexcom_task env cfg = Inr a4"
    and m: "mset evs = mset (started a1 @ started a2 @ started a3 @ started a4)
                      + mset (later a1 @ later a2 @ later a3 @ later a4)"
    using download_Inr [OF assms] by blast
  have "set evs = set (started a1 @ started a2 @ started a3 @ started a4)
                \<union> set (later a1 @ later a2 @ later a3 @ later a4)"
    using m by (metis set_mset_mset set_mset_union)
  then show ?thesis
    using carelink_task_events [OF t(1)] diasend_task_events [OF t(2)]
      tconnect_task_events [OF t(3)] dexcom_task_events [OF t(4)]
    by auto
qed

text \<open>A successful \<open>download\<close> returns the same locations under every schedule.\<close>

lemma download_Inr_schedule:
  assumes "download env sched cfg = (evs, Inr files)"
  shows "\<exists>evs'. download env sched' cfg = (evs', Inr files)"
proof -
  let ?ts = "[carelink_task env cfg, diasend_task env cfg, tconnect_task env cfg, dexcom_task env cfg]"
  obtain a1 a2 a3 a4 where
    t: "carelink_task env cfg = Inr a1" "diasend_task env cfg = Inr a2"
       "tconnect_task env cfg = Inr a3" "dexcom_task env cfg = Inr a4"
    and e: "snd (chain_of a1) = None" "snd (chain_of a2) = None"
           "snd (chain_of a3) = None" "snd (chain_of a4) = None"
    and f: "files = List.map_filter result_of [a1, a2, a3, a4]"
    using download_Inr [OF assms] by blast
  have "snd (interleave sched' (map chain_of [a1, a2, a3, a4])) = None"
    using e by (simp add: interleave_end)
  then obtain levs where "interleave sched' (map chain_of [a1, a2, a3, a4]) = (levs, None)"
    by (cases "interleave sched' (map chain_of [a1, a2, a3, a4])") auto
  then show ?thesis
    using t f by (simp add: download_def split: prod.splits)
qed

text \<open>What \<open>download\<close> does when the process ends inside it.\<close>

lemma download_Inl:
  assumes "download env sched cfg = (evs, Inl oc)"
  shows "(\<exists>e. oc = Uncaught e \<and> (\<forall>x\<in>set evs. download_event x)
            \<and> Inl e \<in> {carelink_task env cfg, diasend_task env cfg,
                        tconnect_task env cfg, dexcom_task env cfg})
       \<or> (\<exists>pre reason error. oc = Exit 255 \<and> evs = pre @ fst (fail env reason error)
            \<and> (\<forall>x\<in>set pre. download_event x))"
proof -
  let ?ts = "[carelink_task env cfg, diasend_task env cfg, tconnect_task env cfg, dexcom_task env cfg]"
  have tev: "\<forall>t\<in>set ?ts. \<forall>a. t = Inr a \<longrightarrow>
      (\<forall>e\<in>set (started a). download_event e) \<and> (\<forall>e\<in>set (later a). download_event e)"
    using carelink_task_events diasend_task_events tconnect_task_events dexcom_task_events
    by auto
  obtain sevs r where st: "start_tasks ?ts = (sevs, r)" by (cases "start_tasks ?ts")
  have sev: "\<forall>e\<in>set sevs. download_event e"
    using start_tasks_events [of ?ts] tev st by fastforce
  show ?thesis
  proof (cases r)
    case (Inl e)
    then have "oc = Uncaught e" "evs = sevs"
      using assms st by (auto simp: download_def)
    moreover have "Inl e \<in> set ?ts" using start_tasks_Inl st Inl by fast
    ultimately show ?thesis using sev by auto
  next
    case (Inr as)
    obtain levs t where il: "interleave sched (map chain_of as) = (levs, t)"
      by (cases "interleave sched (map chain_of as)")
    have ts: "?ts = map Inr as" using start_tasks_Inr [of ?ts sevs as] st Inr by auto
    have "set_mset (mset levs) \<subseteq> set_mset (mset (concat (map fst (map chain_of as))))"
      using interleave_items_sub [of sched "map chain_of as"] il
      by (metis fst_conv set_mset_mono)
    then have "set levs \<subseteq> (\<Union>a\<in>set as. set (later a))"
      by (auto simp: chain_of_events)
    moreover have "\<forall>a\<in>set as. \<forall>e\<in>set (later a). download_event e"
    proof
      fix a assume "a \<in> set as"
      then have "Inr a \<in> set ?ts" unfolding ts by simp
      then show "\<forall>e\<in>set (later a). download_event e" using tev by blast
    qed
    ultimately have lev: "\<forall>e\<in>set levs. download_event e" by blast
    obtain reason error where "t = Some (reason, error)"
      using assms st Inr il by (cases t) (auto simp: download_def)
    then have "oc = Exit 255" "evs = (sevs @ levs) @ fst (fail env reason error)"
      using assms st Inr il by (auto simp: download_def fail_def split: prod.splits)
    then show ?thesis using sev lev by (metis Un_iff set_append)
  qed
qed





subsection \<open>The parse stage and the runs of go\<close>

lemma events_of_filter: "events_of xs = map projl (filter isl xs)"
  by (induction xs rule: events_of.induct) auto

lemma records_of_filter: "records_of xs = map projr (filter (\<lambda>x. \<not> isl x) xs)"
  by (induction xs rule: records_of.induct) auto

lemma events_of_mset:
  assumes "mset xs \<subseteq># mset ys"
  shows "set (events_of xs) \<subseteq> set (events_of ys)"
proof -
  have "set xs \<subseteq> set ys" using assms set_mset_mono by fastforce
  then show ?thesis unfolding events_of_filter by auto
qed

lemma records_of_mset:
  assumes "mset xs = mset ys"
  shows "mset (records_of xs) = mset (records_of ys)"
proof -
  have "mset (records_of zs) = image_mset projr (filter_mset (\<lambda>x. \<not> isl x) (mset zs))" for zs
    unfolding records_of_filter by simp
  then show ?thesis using assms by simp
qed

lemma events_of_append: "events_of (xs @ ys) = events_of xs @ events_of ys"
  by (simp add: events_of_filter)

lemma records_of_append: "records_of (xs @ ys) = records_of xs @ records_of ys"
  by (simp add: records_of_filter)

lemma parse_chain_events: "\<forall>e\<in>set (events_of (fst (parse_chain env d))). is_parse e \<and>
    (\<exists>l c. e = AntacidParse (source d) l c)"
  by (auto simp: parse_chain_def events_of_filter split: option.splits prod.splits)

lemma parse_events_concat:
  "\<forall>e\<in>set (events_of (concat (map fst (map (parse_chain env) files)))).
     is_parse e \<and> (\<exists>d\<in>set files. \<exists>l c. e = AntacidParse (source d) l c)"
proof (induction files)
  case Nil
  show ?case by simp
next
  case (Cons d files)
  show ?case using Cons parse_chain_events [of env d]
    by (auto simp: events_of_append)
qed

lemma parse_events:
  assumes "interleave ps (map (parse_chain env) files) = (items, t)"
  shows "\<forall>e\<in>set (events_of items). is_parse e \<and> (\<exists>d\<in>set files. \<exists>l c. e = AntacidParse (source d) l c)"
proof -
  have "mset items \<subseteq># mset (concat (map fst (map (parse_chain env) files)))"
    using interleave_items_sub [of ps "map (parse_chain env) files"] assms by simp
  then have "set (events_of items) \<subseteq> set (events_of (concat (map fst (map (parse_chain env) files))))"
    by (rule events_of_mset)
  then show ?thesis using parse_events_concat [of env files] by blast
qed

text \<open>The seven ways a run of \<open>go\<close> can take.\<close>

lemma go_cases [case_names start_failed download_ended delete_failed parse_failed
    no_results store_failed stored]:
  obtains
    err where "mongoClient_start env = Some err"
      "go env fs ps cfg db =
         \<lparr>trace = MongoStart # fst (fail env ''Just another error'' err),
          outcome = Exit 255, persisted = db\<rparr>"
  | devs oc where "mongoClient_start env = None" "download env fs cfg = (devs, Inl oc)"
      "go env fs ps cfg db = \<lparr>trace = MongoStart # devs, outcome = oc, persisted = db\<rparr>"
  | devs files err where "mongoClient_start env = None"
      "download env fs cfg = (devs, Inr files)"
      "deleteData_err env (groupId cfg) = Some err"
      "go env fs ps cfg db =
         \<lparr>trace = MongoStart # devs @ DeleteData (groupId cfg)
                    # fst (fail env ''Just another error'' err),
          outcome = Exit 255, persisted = db\<rparr>"
  | devs files items err where "mongoClient_start env = None"
      "download env fs cfg = (devs, Inr files)"
      "deleteData_err env (groupId cfg) = None"
      "interleave ps (map (parse_chain env) files) = (items, Some err)"
      "go env fs ps cfg db =
         \<lparr>trace = MongoStart # devs @ DeleteData (groupId cfg) # events_of items
                    @ fst (fail env ''Problem parsing data'' err),
          outcome = Exit 255, persisted = deleteData (groupId cfg) db\<rparr>"
  | devs files items where "mongoClient_start env = None"
      "download env fs cfg = (devs, Inr files)"
      "deleteData_err env (groupId cfg) = None"
      "interleave ps (map (parse_chain env) files) = (items, None)"
      "records_of items = []"
      "go env fs ps cfg db =
         \<lparr>trace = MongoStart # devs @ DeleteData (groupId cfg) # events_of items
                    @ fst (fail env ''No results'' ''No results''),
          outcome = Exit 255, persisted = deleteData (groupId cfg) db\<rparr>"
  | devs files items err where "mongoClient_start env = None"
      "download env fs cfg = (devs, Inr files)"
      "deleteData_err env (groupId cfg) = None"
      "interleave ps (map (parse_chain env) files) = (items, None)"
      "records_of items \<noteq> []"
      "storeData_err env (map (\<lambda>e. e\<lparr>r_groupId := groupId cfg\<rparr>) (records_of items)) = Some err"
      "go env fs ps cfg db =
         \<lparr>trace = MongoStart # devs @ DeleteData (groupId cfg) # events_of items
                    @ StoreData (map (\<lambda>e. e\<lparr>r_groupId := groupId cfg\<rparr>) (records_of items))
                    # fst (fail env ''Problem with DB, Oh Noes!'' err),
          outcome = Exit 255, persisted = deleteData (groupId cfg) db\<rparr>"
  | devs files items where "mongoClient_start env = None"
      "download env fs cfg = (devs, Inr files)"
      "deleteData_err env (groupId cfg) = None"
      "interleave ps (map (parse_chain env) files) = (items, None)"
      "records_of items \<noteq> []"
      "storeData_err env (map (\<lambda>e. e\<lparr>r_groupId := groupId cfg\<rparr>) (records_of items)) = None"
      "go env fs ps cfg db =
         \<lparr>trace = MongoStart # devs @ DeleteData (groupId cfg) # events_of items
                    @ [StoreData (map (\<lambda>e. e\<lparr>r_groupId := groupId cfg\<rparr>) (records_of items)),
                       MongoClose],
          outcome = Exit 0,
          persisted = storeData (map (\<lambda>e. e\<lparr>r_groupId := groupId cfg\<rparr>) (records_of items))
                        (deleteData (groupId cfg) db)\<rparr>"
proof (cases "mongoClient_start env")
  case (Some err)
  then have "go env fs ps cfg db =
         \<lparr>trace = MongoStart # fst (fail env ''Just another error'' err),
          outcome = Exit 255, persisted = db\<rparr>"
    by (simp add: go_def split_beta fail_outcome)
  then show ?thesis using Some that(1) by blast
next
  case None
  note m = None
  obtain devs r where d: "download env fs cfg = (devs, r)" by (cases "download env fs cfg")
  show ?thesis
  proof (cases r)
    case (Inl oc)
    then have "go env fs ps cfg db = \<lparr>trace = MongoStart # devs, outcome = oc, persisted = db\<rparr>"
      using m d by (simp add: go_def)
    then show ?thesis using m d Inl that(2) by blast
  next
    case (Inr files)
    note f = d [unfolded Inr]
    show ?thesis
    proof (cases "deleteData_err env (groupId cfg)")
      case (Some err)
      then have "go env fs ps cfg db =
         \<lparr>trace = MongoStart # devs @ DeleteData (groupId cfg)
                    # fst (fail env ''Just another error'' err),
          outcome = Exit 255, persisted = db\<rparr>"
        using m f by (simp add: go_def removeData_def split_beta fail_outcome)
      then show ?thesis using m f Some that(3) by blast
    next
      case None
      note del = None
      obtain items t where il: "interleave ps (map (parse_chain env) files) = (items, t)"
        by (cases "interleave ps (map (parse_chain env) files)")
      show ?thesis
      proof (cases t)
        case (Some err)
        then have "go env fs ps cfg db =
         \<lparr>trace = MongoStart # devs @ DeleteData (groupId cfg) # events_of items
                    @ fst (fail env ''Problem parsing data'' err),
          outcome = Exit 255, persisted = deleteData (groupId cfg) db\<rparr>"
          using m f del il by (simp add: go_def removeData_def split_beta fail_outcome)
        then show ?thesis using m f del il Some that(4) by blast
      next
        case None
        note il' = il [unfolded None]
        show ?thesis
        proof (cases "records_of items = []")
          case True
          then have "go env fs ps cfg db =
            \<lparr>trace = MongoStart # devs @ DeleteData (groupId cfg) # events_of items
                    @ fst (fail env ''No results'' ''No results''),
             outcome = Exit 255, persisted = deleteData (groupId cfg) db\<rparr>"
            using m f del il' by (simp add: go_def removeData_def split_beta fail_outcome)
          then show ?thesis using m f del il' True that(5) by blast
        next
          case False
          let ?rs = "map (\<lambda>e. e\<lparr>r_groupId := groupId cfg\<rparr>) (records_of items)"
          show ?thesis
          proof (cases "storeData_err env ?rs")
            case (Some err)
            then have "go env fs ps cfg db =
              \<lparr>trace = MongoStart # devs @ DeleteData (groupId cfg) # events_of items
                    @ StoreData ?rs # fst (fail env ''Problem with DB, Oh Noes!'' err),
               outcome = Exit 255, persisted = deleteData (groupId cfg) db\<rparr>"
              using m f del il' False
              by (simp add: go_def removeData_def split_beta fail_outcome Let_def)
            then show ?thesis using m f del il' False Some that(6) by blast
          next
            case None
            then have "go env fs ps cfg db =
              \<lparr>trace = MongoStart # devs @ DeleteData (groupId cfg) # events_of items
                    @ [StoreData ?rs, MongoClose],
               outcome = Exit 0,
               persisted = storeData ?rs (deleteData (groupId cfg) db)\<rparr>"
              using m f del il' False
              by (simp add: go_def removeData_def split_beta Let_def)
            then show ?thesis using m f del il' False None that(7) by blast
          qed
        qed
      qed
    qed
  qed
qed

subsection \<open>Evaluating concrete runs\<close>

lemmas concrete_defs = good_env_def good_adapter_def failing_adapter_def three_records_def
  carelink_config_def tconnect_config_def broken_dexcom_config_def dexcom_config_def
  job_g1_def job_g2_def job_no_group_def job_tconnect_def job_dexcom_broken_def job_dexcom_def
  old_db_def half_adapter_def flaky_env_def full_env_def diasend_config_def nosuch_config_def
  job_diasend_def job_unknown_def readonly_env_def

lemmas run_defs = stdin_data_def hasProperty_def go_def download_def carelink_task_def
  diasend_task_def tconnect_task_def dexcom_task_def describe_def fetch_def ingestion_at_def
  show_type_def fail_def removeData_def parse_chain_def deleteData_def storeData_def
  persisted_for_def List.map_filter_def Let_def

subsection \<open>The job\<close>

lemma stdin_data_go: "groupId cfg = Some g \<Longrightarrow> stdin_data env fs ps cfg db = go env fs ps cfg db"
  by (simp add: stdin_data_def hasProperty_def)

lemma download_events:
  assumes "download env fs cfg = (devs, r)"
  shows "\<forall>e\<in>set devs. download_event e \<or> fail_event e"
proof (cases r)
  case (Inl oc)
  then show ?thesis using download_Inl [of env fs cfg devs oc] assms fail_events
    by fastforce
next
  case (Inr files)
  then show ?thesis using download_Inr_events [of env fs cfg devs files] assms by blast
qed

text \<open>
  C2. For every Job Description without \<open>groupId\<close> the job ends, in the handler of the job
  input, with the exception \<open>groupId is a required property\<close>: before that no collaborator
  has been called (no database start, no fetch, no delete, no store), and the persisted
  records are untouched.
\<close>

theorem missing_groupId_fails_first:
  "groupId cfg = None \<Longrightarrow>
     stdin_data env fs ps cfg db =
       \<lparr>trace = [], outcome = Uncaught ''groupId is a required property'', persisted = db\<rparr>"
  by (simp add: stdin_data_def hasProperty_def)

theorem missing_groupId_fails_first_witness:
  "groupId job_no_group = None
   \<and> stdin_data good_env [0, 1] [2] job_no_group old_db =
       \<lparr>trace = [], outcome = Uncaught ''groupId is a required property'', persisted = old_db\<rparr>"
  using missing_groupId_fails_first [of job_no_group good_env "[0, 1]" "[2]" old_db]
  by (simp add: job_no_group_def)

text \<open>The only store call of a run stores records that were tagged.\<close>

lemma go_store:
  assumes "StoreData rs \<in> set (trace (go env fs ps cfg db))"
  shows "\<exists>records. rs = map (\<lambda>e. e\<lparr>r_groupId := groupId cfg\<rparr>) records"
proof (cases rule: go_cases [of env fs ps cfg db])
  case (start_failed err)
  then show ?thesis using assms fail_events [of env "''Just another error''" err] by auto
next
  case (download_ended devs oc)
  then show ?thesis using assms download_events [of env fs cfg devs "Inl oc"] by auto
next
  case (delete_failed devs files err)
  then show ?thesis
    using assms download_events [of env fs cfg devs "Inr files"]
      fail_events [of env "''Just another error''" err] by auto
next
  case (parse_failed devs files items err)
  then show ?thesis
    using assms download_events [of env fs cfg devs "Inr files"]
      fail_events [of env "''Problem parsing data''" err]
      parse_events [of ps env files items "Some err"] by auto
next
  case (no_results devs files items)
  then show ?thesis
    using assms download_events [of env fs cfg devs "Inr files"]
      fail_events [of env "''No results''" "''No results''"]
      parse_events [of ps env files items None] by auto
next
  case (store_failed devs files items err)
  then show ?thesis
    using assms download_events [of env fs cfg devs "Inr files"]
      fail_events [of env "''Problem with DB, Oh Noes!''" err]
      parse_events [of ps env files items None] by auto
next
  case (stored devs files items)
  then show ?thesis
    using assms download_events [of env fs cfg devs "Inr files"]
      parse_events [of ps env files items None] by auto
qed

text \<open>
  C8. Every record that reaches the bulk-store call carries the run's \<open>groupId\<close>: whenever
  a run calls \<open>storeData(rs)\<close>, the job has a \<open>groupId\<close> and every record of \<open>rs\<close> has it as
  its \<open>_groupId\<close>.
\<close>

theorem stored_records_carry_groupId:
  assumes "StoreData rs \<in> set (trace (stdin_data env fs ps cfg db))"
  shows "\<exists>g. groupId cfg = Some g \<and> (\<forall>r\<in>set rs. r_groupId r = Some g)"
proof (cases "groupId cfg")
  case None
  then show ?thesis using assms by (simp add: stdin_data_def hasProperty_def)
next
  case (Some g)
  then have "StoreData rs \<in> set (trace (go env fs ps cfg db))"
    using assms by (simp add: stdin_data_go)
  then obtain records where "rs = map (\<lambda>e. e\<lparr>r_groupId := groupId cfg\<rparr>) records"
    using go_store by blast
  then show ?thesis using Some by auto
qed

theorem stored_records_carry_groupId_witness:
  "StoreData (map (\<lambda>e. e\<lparr>r_groupId := Some ''g1''\<rparr>) three_records)
     \<in> set (trace (stdin_data good_env [] [] job_g1 old_db))
   \<and> groupId job_g1 = Some ''g1''
   \<and> list_all (\<lambda>r. r_groupId r = Some ''g1'') (map (\<lambda>e. e\<lparr>r_groupId := Some ''g1''\<rparr>) three_records)"
proof -
  have h: "StoreData (map (\<lambda>e. e\<lparr>r_groupId := Some ''g1''\<rparr>) three_records)
     \<in> set (trace (stdin_data good_env [] [] job_g1 old_db))"
    by (simp add: concrete_defs run_defs)
  show ?thesis
    using h stored_records_carry_groupId [OF h]
    by (simp add: job_g1_def three_records_def)
qed

subsection \<open>Empty results, the order of the stages, and replacement\<close>

lemma interleave_quiet:
  assumes "\<forall>c\<in>set cs. c = ([], None)"
  shows "interleave s cs = ([], None)"
proof -
  have e: "\<forall>c\<in>set cs. snd c = None" using assms by auto
  have "concat (map fst cs) = []" using assms by auto
  then have "mset (fst (interleave s cs)) = {#}"
    using interleave_items [OF e, of s] by simp
  moreover have "snd (interleave s cs) = None" using e by (simp add: interleave_end)
  ultimately show ?thesis by (cases "interleave s cs") auto
qed

lemma download_nothing:
  assumes "carelink cfg = None" "diasend cfg = None" "tconnect cfg = None" "dexcom cfg = None"
  shows "download env fs cfg = ([], Inr [])"
proof -
  have "interleave fs (map chain_of [Async [] [] (Cb None None), Async [] [] (Cb None None),
          Async [] [] (Cb None None), Async [] [] (Cb None (None :: locSpec option))]) = ([], None)"
    by (rule interleave_quiet) simp
  then show ?thesis
    using assms
    by (simp add: download_def carelink_task_def diasend_task_def tconnect_task_def
          dexcom_task_def describe_def fetch_def List.map_filter_def)
qed

lemma no_store_event:
  "\<forall>e\<in>set evs. download_event e \<or> fail_event e \<or> is_parse e \<or> is_delete e \<or> e = MongoStart
     \<Longrightarrow> StoreData rs \<notin> set evs"
  by auto

text \<open>
  C4. When the job has a \<open>groupId\<close>, the database starts, \<open>download\<close> calls back with its
  locations, the delete succeeds, and the merged sequence completes without a single
  record, the run calls \<open>fail\<close> with the reason \<open>No results\<close> and exits with code 255. Its
  trace is the database start, the fetch stage, the delete, the parser calls and the
  events of \<open>fail\<close>: the delete was made, and no store call follows that could bring the
  deleted records back. In particular a job with a \<open>groupId\<close> and no source configured
  gets no location from \<open>download\<close>, an empty merged sequence, and ends this way (given
  that the database starts and the delete succeeds).
\<close>

theorem empty_result_fails:
  "(groupId cfg = Some g \<and> mongoClient_start env = None
      \<and> download env fs cfg = (devs, Inr files)
      \<and> deleteData_err env (Some g) = None
      \<and> interleave ps (map (parse_chain env) files) = (items, None)
      \<and> records_of items = []
    \<longrightarrow> outcome (stdin_data env fs ps cfg db) = Exit 255
      \<and> trace (stdin_data env fs ps cfg db)
          = MongoStart # devs @ DeleteData (Some g) # events_of items
              @ fst (fail env ''No results'' ''No results'')
      \<and> StoreData rs \<notin> set (trace (stdin_data env fs ps cfg db)))
 \<and> (groupId cfg = Some g \<and> carelink cfg = None \<and> diasend cfg = None
      \<and> tconnect cfg = None \<and> dexcom cfg = None
      \<and> mongoClient_start env = None \<and> deleteData_err env (Some g) = None
    \<longrightarrow> download env fs cfg = ([], Inr [])
      \<and> interleave ps (map (parse_chain env) []) = ([], None)
      \<and> outcome (stdin_data env fs ps cfg db) = Exit 255
      \<and> trace (stdin_data env fs ps cfg db)
          = MongoStart # DeleteData (Some g) # fst (fail env ''No results'' ''No results''))"
proof (intro conjI impI)
  assume a: "groupId cfg = Some g \<and> mongoClient_start env = None
      \<and> download env fs cfg = (devs, Inr files)
      \<and> deleteData_err env (Some g) = None
      \<and> interleave ps (map (parse_chain env) files) = (items, None)
      \<and> records_of items = []"
  have r: "stdin_data env fs ps cfg db =
      \<lparr>trace = MongoStart # devs @ DeleteData (Some g) # events_of items
                @ fst (fail env ''No results'' ''No results''),
       outcome = Exit 255, persisted = deleteData (Some g) db\<rparr>"
    using a by (simp add: stdin_data_go go_def removeData_def split_beta fail_outcome)
  show "outcome (stdin_data env fs ps cfg db) = Exit 255" using r by simp
  show "trace (stdin_data env fs ps cfg db)
          = MongoStart # devs @ DeleteData (Some g) # events_of items
              @ fst (fail env ''No results'' ''No results'')" using r by simp
  have "\<forall>e\<in>set devs. download_event e" using a download_Inr_events by blast
  moreover have "\<forall>e\<in>set (events_of items). is_parse e" using a parse_events by blast
  moreover have "\<forall>e\<in>set (fst (fail env ''No results'' ''No results'')). fail_event e"
    by (rule fail_events)
  ultimately have "\<forall>e\<in>set (trace (stdin_data env fs ps cfg db)).
      download_event e \<or> fail_event e \<or> is_parse e \<or> is_delete e \<or> e = MongoStart"
    unfolding r by auto
  then show "StoreData rs \<notin> set (trace (stdin_data env fs ps cfg db))"
    by (rule no_store_event)
next
  assume a: "groupId cfg = Some g \<and> carelink cfg = None \<and> diasend cfg = None
      \<and> tconnect cfg = None \<and> dexcom cfg = None
      \<and> mongoClient_start env = None \<and> deleteData_err env (Some g) = None"
  show d: "download env fs cfg = ([], Inr [])" using a by (simp add: download_nothing)
  show p: "interleave ps (map (parse_chain env) []) = ([], None)"
    by (rule interleave_quiet) simp
  have r: "stdin_data env fs ps cfg db =
      \<lparr>trace = MongoStart # DeleteData (Some g) # fst (fail env ''No results'' ''No results''),
       outcome = Exit 255, persisted = deleteData (Some g) db\<rparr>"
    using a d p by (simp add: stdin_data_go go_def removeData_def split_beta fail_outcome)
  show "outcome (stdin_data env fs ps cfg db) = Exit 255" using r by simp
  show "trace (stdin_data env fs ps cfg db)
          = MongoStart # DeleteData (Some g) # fst (fail env ''No results'' ''No results'')"
    using r by simp
qed

theorem empty_result_fails_witness:
  "trace (stdin_data good_env [3, 0] [1] job_g2 old_db) =
     [MongoStart, DeleteData (Some ''g2''), MongoClose,
      LogWarn ''No results'' ''Failing due to error, with reason[No results].'',
      WriteErrorJson ''/tmp/task'' ''No results'']
   \<and> outcome (stdin_data good_env [3, 0] [1] job_g2 old_db) = Exit 255
   \<and> download good_env [3, 0] job_g2 = ([], Inr [])
   \<and> StoreData [] \<notin> set (trace (stdin_data good_env [3, 0] [1] job_g2 old_db))"
  using empty_result_fails [of job_g2 "''g2''" good_env "[3, 0]" "[]" "[]" "[1]" "[]" old_db "[]"]
  by (simp add: concrete_defs fail_def)

lemma fetch_saved:
  "fetch env gid f (Some c) = Inr (Async s l (Cb None v)) \<Longrightarrow> StorageSave gid f \<in> set l"
  by (auto simp: fetch_def split: option.splits sum.splits)

lemma describe_saved:
  assumes "describe mk (fetch env gid f cfg) = Inr a" "snd (chain_of a) = None" "cfg \<noteq> None"
  shows "StorageSave gid f \<in> set (later a)"
proof -
  obtain s l v where r: "fetch env gid f cfg = Inr (Async s l (Cb None v))"
    using describe_ok [OF assms(1,2)] by blast
  obtain c where "cfg = Some c" using assms(3) by auto
  then have "StorageSave gid f \<in> set l" using r fetch_saved by blast
  moreover have "later a = l" using describe_events [OF assms(1)] r by auto
  ultimately show ?thesis by simp
qed

lemma dexcom_task_saved:
  assumes "dexcom_task env cfg = Inr a" "snd (chain_of a) = None" "dexcom cfg \<noteq> None"
  shows "StorageSave (groupId cfg) ''dexcom.csv'' \<in> set (later a)"
proof -
  obtain dex where d: "dexcom cfg = Some dex" using assms(3) by auto
  obtain s l v where r: "fetch env (groupId cfg) ''dexcom.csv'' (dexcom cfg) = Inr (Async s l (Cb None v))"
    using dexcom_task_ok [OF assms(1,2)] by blast
  then have "StorageSave (groupId cfg) ''dexcom.csv'' \<in> set l"
    using d fetch_saved by metis
  moreover have "set l \<subseteq> set (later a)"
    using assms(1) d r by (auto simp: dexcom_task_def)
  ultimately show ?thesis by blast
qed

text \<open>When \<open>download\<close> calls back, every fetch has called back without an error, and the
  payload of every configured source has been saved.\<close>

lemma download_Inr_fetched:
  assumes "download env fs cfg = (devs, Inr files)"
  shows "fetched env (groupId cfg) ''carelink.csv'' (carelink cfg)
       \<and> fetched env (groupId cfg) ''diasend.xls'' (diasend cfg)
       \<and> fetched env (groupId cfg) ''tconnect.xml'' (tconnect cfg)
       \<and> fetched env (groupId cfg) ''dexcom.csv'' (dexcom cfg)
       \<and> (carelink cfg \<noteq> None \<longrightarrow> StorageSave (groupId cfg) ''carelink.csv'' \<in> set devs)
       \<and> (diasend cfg \<noteq> None \<longrightarrow> StorageSave (groupId cfg) ''diasend.xls'' \<in> set devs)
       \<and> (tconnect cfg \<noteq> None \<longrightarrow> StorageSave (groupId cfg) ''tconnect.xml'' \<in> set devs)
       \<and> (dexcom cfg \<noteq> None \<longrightarrow> StorageSave (groupId cfg) ''dexcom.csv'' \<in> set devs)"
proof -
  obtain a1 a2 a3 a4 where
    t: "carelink_task env cfg = Inr a1" "diasend_task env cfg = Inr a2"
       "tconnect_task env cfg = Inr a3" "dexcom_task env cfg = Inr a4"
    and e: "snd (chain_of a1) = None" "snd (chain_of a2) = None"
           "snd (chain_of a3) = None" "snd (chain_of a4) = None"
    and m: "mset devs = mset (started a1 @ started a2 @ started a3 @ started a4)
                      + mset (later a1 @ later a2 @ later a3 @ later a4)"
    using download_Inr [OF assms] by blast
  have sub: "set (later a1) \<subseteq> set devs" "set (later a2) \<subseteq> set devs"
            "set (later a3) \<subseteq> set devs" "set (later a4) \<subseteq> set devs"
  proof -
    have "set devs = set (started a1 @ started a2 @ started a3 @ started a4)
                \<union> set (later a1 @ later a2 @ later a3 @ later a4)"
      using m by (metis set_mset_mset set_mset_union)
    then show "set (later a1) \<subseteq> set devs" "set (later a2) \<subseteq> set devs"
            "set (later a3) \<subseteq> set devs" "set (later a4) \<subseteq> set devs" by auto
  qed
  have "fetched env (groupId cfg) ''carelink.csv'' (carelink cfg)"
    using carelink_task_ok [OF t(1) e(1)] fetched_iff by blast
  moreover have "fetched env (groupId cfg) ''diasend.xls'' (diasend cfg)"
    using diasend_task_ok [OF t(2) e(2)] fetched_iff by blast
  moreover have "fetched env (groupId cfg) ''tconnect.xml'' (tconnect cfg)"
    using tconnect_task_ok [OF t(3) e(3)] fetched_iff by blast
  moreover have "fetched env (groupId cfg) ''dexcom.csv'' (dexcom cfg)"
    using dexcom_task_ok [OF t(4) e(4)] fetched_iff by blast
  moreover have "carelink cfg \<noteq> None \<longrightarrow> StorageSave (groupId cfg) ''carelink.csv'' \<in> set devs"
    using describe_saved [OF t(1) [unfolded carelink_task_def] e(1)] sub(1) by blast
  moreover have "diasend cfg \<noteq> None \<longrightarrow> StorageSave (groupId cfg) ''diasend.xls'' \<in> set devs"
    using describe_saved [OF t(2) [unfolded diasend_task_def] e(2)] sub(2) by blast
  moreover have "tconnect cfg \<noteq> None \<longrightarrow> StorageSave (groupId cfg) ''tconnect.xml'' \<in> set devs"
    using describe_saved [OF t(3) [unfolded tconnect_task_def] e(3)] sub(3) by blast
  moreover have "dexcom cfg \<noteq> None \<longrightarrow> StorageSave (groupId cfg) ''dexcom.csv'' \<in> set devs"
    using dexcom_task_saved [OF t(4) e(4)] sub(4) by blast
  ultimately show ?thesis by blast
qed


lemma download_events_kinds:
  "\<forall>x\<in>set devs. download_event x \<Longrightarrow>
     \<forall>x\<in>set devs. \<not> is_parse x \<and> \<not> is_store x \<and> \<not> is_delete x \<and> x \<noteq> MongoStart"
  by (rule ballI, drule bspec, assumption, case_tac x) auto

lemma later_events_kinds:
  "\<forall>x\<in>set post. is_parse x \<or> fail_event x \<or> is_store x \<Longrightarrow>
     \<forall>x\<in>set post. \<not> is_fetch x \<and> \<not> is_delete x"
  by (rule ballI, drule bspec, assumption, case_tac x) auto

lemma persisted_for_deleteData: "persisted_for g (deleteData g db) = []"
  by (simp add: persisted_for_def deleteData_def filter_empty_conv)

text \<open>
  C3. In every run, whenever a delete, a parse or a store call occurs at all, the trace is
  the database start, the events of the fetch stage, the one delete call for the run's
  group, and the rest. Every fetch has then called back without an error, and the payload
  of every configured source was saved before the delete; no parse, store or delete call
  precedes the delete, and no fetch, save or further delete follows it. The delete and
  the store are separate calls: when the delete succeeds and no store call follows it,
  the run exits with code 255 and no record of the group is persisted any more.
\<close>

theorem delete_between_fetch_and_parse:
  assumes "e \<in> set (trace (stdin_data env fs ps cfg db))"
    and "is_delete e \<or> is_parse e \<or> is_store e"
  shows "\<exists>devs files post.
       download env fs cfg = (devs, Inr files)
     \<and> trace (stdin_data env fs ps cfg db) = MongoStart # devs @ DeleteData (groupId cfg) # post
     \<and> (\<forall>x\<in>set devs. \<not> is_parse x \<and> \<not> is_store x \<and> \<not> is_delete x)
     \<and> (\<forall>x\<in>set post. \<not> is_fetch x \<and> \<not> is_delete x)
     \<and> fetched env (groupId cfg) ''carelink.csv'' (carelink cfg)
     \<and> fetched env (groupId cfg) ''diasend.xls'' (diasend cfg)
     \<and> fetched env (groupId cfg) ''tconnect.xml'' (tconnect cfg)
     \<and> fetched env (groupId cfg) ''dexcom.csv'' (dexcom cfg)
     \<and> (carelink cfg \<noteq> None \<longrightarrow> StorageSave (groupId cfg) ''carelink.csv'' \<in> set devs)
     \<and> (diasend cfg \<noteq> None \<longrightarrow> StorageSave (groupId cfg) ''diasend.xls'' \<in> set devs)
     \<and> (tconnect cfg \<noteq> None \<longrightarrow> StorageSave (groupId cfg) ''tconnect.xml'' \<in> set devs)
     \<and> (dexcom cfg \<noteq> None \<longrightarrow> StorageSave (groupId cfg) ''dexcom.csv'' \<in> set devs)
     \<and> (deleteData_err env (groupId cfg) = None \<and> (\<forall>x\<in>set post. \<not> is_store x)
          \<longrightarrow> outcome (stdin_data env fs ps cfg db) = Exit 255
            \<and> persisted_for (groupId cfg) (persisted (stdin_data env fs ps cfg db)) = [])"
proof -
  obtain g where g: "groupId cfg = Some g"
    using assms(1) by (cases "groupId cfg") (auto simp: stdin_data_def hasProperty_def)
  have sg: "stdin_data env fs ps cfg db = go env fs ps cfg db"
    using g by (rule stdin_data_go)
  have mem: "e \<in> set (trace (go env fs ps cfg db))" using assms(1) sg by simp
  have main: "\<exists>devs files post.
       download env fs cfg = (devs, Inr files)
     \<and> trace (go env fs ps cfg db) = MongoStart # devs @ DeleteData (groupId cfg) # post
     \<and> (\<forall>x\<in>set post. is_parse x \<or> fail_event x \<or> is_store x)
     \<and> (deleteData_err env (groupId cfg) = None \<and> (\<forall>x\<in>set post. \<not> is_store x)
          \<longrightarrow> outcome (go env fs ps cfg db) = Exit 255
            \<and> persisted (go env fs ps cfg db) = deleteData (groupId cfg) db)"
  proof (cases rule: go_cases [of env fs ps cfg db])
    case (start_failed err)
    have "\<forall>x\<in>set (trace (go env fs ps cfg db)). x = MongoStart \<or> fail_event x"
      using start_failed fail_events [of env "''Just another error''" err] by auto
    then have "e = MongoStart \<or> fail_event e" using mem by blast
    then show ?thesis using assms(2) by (cases e) auto
  next
    case (download_ended devs oc)
    have "\<forall>x\<in>set (trace (go env fs ps cfg db)). x = MongoStart \<or> download_event x \<or> fail_event x"
      using download_ended download_events [of env fs cfg devs "Inl oc"] by auto
    then have "e = MongoStart \<or> download_event e \<or> fail_event e" using mem by blast
    then show ?thesis using assms(2) by (cases e) auto
  next
    case (delete_failed devs files err)
    then show ?thesis
      using fail_events [of env "''Just another error''" err] by auto
  next
    case (parse_failed devs files items err)
    then show ?thesis
      using fail_events [of env "''Problem parsing data''" err]
        parse_events [of ps env files items "Some err"] by auto
  next
    case (no_results devs files items)
    then show ?thesis
      using fail_events [of env "''No results''" "''No results''"]
        parse_events [of ps env files items None] by auto
  next
    case (store_failed devs files items err)
    then show ?thesis
      using fail_events [of env "''Problem with DB, Oh Noes!''" err]
        parse_events [of ps env files items None] by auto
  next
    case (stored devs files items)
    then show ?thesis
      using parse_events [of ps env files items None] by auto
  qed
  then obtain devs files post where
    d: "download env fs cfg = (devs, Inr files)"
    and t: "trace (go env fs ps cfg db) = MongoStart # devs @ DeleteData (groupId cfg) # post"
    and p: "\<forall>x\<in>set post. is_parse x \<or> fail_event x \<or> is_store x"
    and f: "deleteData_err env (groupId cfg) = None \<and> (\<forall>x\<in>set post. \<not> is_store x)
          \<longrightarrow> outcome (go env fs ps cfg db) = Exit 255
            \<and> persisted (go env fs ps cfg db) = deleteData (groupId cfg) db"
    by blast
  have k1: "\<forall>x\<in>set devs. \<not> is_parse x \<and> \<not> is_store x \<and> \<not> is_delete x"
    using download_events_kinds [OF download_Inr_events [OF d]] by blast
  have k2: "\<forall>x\<in>set post. \<not> is_fetch x \<and> \<not> is_delete x"
    using later_events_kinds [OF p] .
  have f': "deleteData_err env (groupId cfg) = None \<and> (\<forall>x\<in>set post. \<not> is_store x)
          \<longrightarrow> outcome (stdin_data env fs ps cfg db) = Exit 255
            \<and> persisted_for (groupId cfg) (persisted (stdin_data env fs ps cfg db)) = []"
    using f sg by (simp add: persisted_for_deleteData)
  show ?thesis
    using d t [folded sg] k1 k2 f' download_Inr_fetched [OF d] by blast
qed

theorem delete_between_fetch_and_parse_witness:
  "DeleteData (Some ''g1'') \<in> set (trace (stdin_data flaky_env [] [] job_diasend old_db))
   \<and> trace (stdin_data flaky_env [] [] job_diasend old_db) =
       [MongoStart,
        AntacidFetch ''diasend.xls'' (Some ''diasend'') diasend_config,
        StorageSave (Some ''g1'') ''diasend.xls'',
        DeleteData (Some ''g1''),
        AntacidParse ''diasend'' (Some ''blob:diasend.xls'') (Some diasend_config),
        MongoClose,
        LogWarn ''bad row'' ''Failing due to error, with reason[Problem parsing data].'',
        WriteErrorJson ''/tmp/task'' ''Problem parsing data'']
   \<and> outcome (stdin_data flaky_env [] [] job_diasend old_db) = Exit 255
   \<and> persisted_for (Some ''g1'') old_db = [\<lparr>r_groupId = Some ''g1'', body = ''old''\<rparr>]
   \<and> persisted_for (Some ''g1'') (persisted (stdin_data flaky_env [] [] job_diasend old_db)) = []"
  using delete_between_fetch_and_parse
    [of "DeleteData (Some ''g1'')" flaky_env "[]" "[]" job_diasend old_db]
  by (simp add: concrete_defs run_defs)


lemma records_of_concat:
  "records_of (concat (map fst (map (parse_chain env) files)))
     = concat (map (\<lambda>d. records_of (fst (parse_chain env d))) files)"
  by (induction files) (simp_all add: records_of_append)

lemma persisted_for_replaced:
  "persisted_for g (storeData (map (\<lambda>e. e\<lparr>r_groupId := g\<rparr>) rs) (deleteData g db))
     = map (\<lambda>e. e\<lparr>r_groupId := g\<rparr>) rs"
  by (simp add: persisted_for_def storeData_def deleteData_def filter_empty_conv)

text \<open>A run in which everything succeeds, under any schedule and on any persisted records.\<close>

lemma successful_run:
  assumes "groupId cfg = Some g"
    and "mongoClient_start env = None"
    and "download env fs0 cfg = (devs0, Inr files)"
    and "deleteData_err env (Some g) = None"
    and "\<forall>d\<in>set files. snd (parse_chain env d) = None"
    and "concat (map (\<lambda>d. records_of (fst (parse_chain env d))) files) \<noteq> []"
    and "\<forall>rs. storeData_err env rs = None"
  shows "outcome (stdin_data env fs ps cfg db) = Exit 0
       \<and> mset (persisted_for (Some g) (persisted (stdin_data env fs ps cfg db)))
           = image_mset (\<lambda>e. e\<lparr>r_groupId := Some g\<rparr>)
               (mset (concat (map (\<lambda>d. records_of (fst (parse_chain env d))) files)))"
proof -
  obtain devs where d: "download env fs cfg = (devs, Inr files)"
    using download_Inr_schedule [OF assms(3)] by blast
  have ends: "\<forall>c\<in>set (map (parse_chain env) files). snd c = None"
    using assms(5) by simp
  have "snd (interleave ps (map (parse_chain env) files)) = None"
    using ends by (simp only: interleave_end)
  then obtain items where il: "interleave ps (map (parse_chain env) files) = (items, None)"
    by (cases "interleave ps (map (parse_chain env) files)") auto
  have "mset items = mset (concat (map fst (map (parse_chain env) files)))"
    using interleave_items [OF ends, of ps] il by simp
  then have "mset (records_of items)
      = mset (records_of (concat (map fst (map (parse_chain env) files))))"
    by (rule records_of_mset)
  then have recs: "mset (records_of items)
      = mset (concat (map (\<lambda>d. records_of (fst (parse_chain env d))) files))"
    by (simp only: records_of_concat)
  then have ne: "records_of items \<noteq> []" using assms(6) by (metis mset_zero_iff)
  let ?rs = "map (\<lambda>e. e\<lparr>r_groupId := Some g\<rparr>) (records_of items)"
  have r: "stdin_data env fs ps cfg db =
      \<lparr>trace = MongoStart # devs @ DeleteData (Some g) # events_of items
                 @ [StoreData ?rs, MongoClose],
       outcome = Exit 0,
       persisted = storeData ?rs (deleteData (Some g) db)\<rparr>"
    using assms(1,2,4,7) d il ne
    by (simp add: stdin_data_go go_def removeData_def Let_def)
  have "mset (persisted_for (Some g) (persisted (stdin_data env fs ps cfg db))) = mset ?rs"
    unfolding r by (simp add: persisted_for_replaced)
  also have "\<dots> = image_mset (\<lambda>e. e\<lparr>r_groupId := Some g\<rparr>) (mset (records_of items))"
    by simp
  finally show ?thesis using r recs by simp
qed

text \<open>
  C1 (as amended). Take a job with \<open>groupId = g\<close> for which the database starts,
  \<open>download\<close> calls back with its locations (every configured source was fetched and
  saved), the delete succeeds, every parser completes without an error, together they
  yield at least one record, and the store succeeds. Then the run exits with code 0 under
  every schedule, and the persisted records of group \<open>g\<close> are afterwards exactly the
  records parsed in this run, each tagged with \<open>g\<close> (as a multiset, and so as a set),
  whatever was persisted before. Running the same job again on the result, under any
  schedule, exits with code 0 and leaves the same records for the group.
\<close>

theorem replace_on_success:
  assumes "groupId cfg = Some g"
    and "mongoClient_start env = None"
    and "download env fs cfg = (devs, Inr files)"
    and "deleteData_err env (Some g) = None"
    and "\<forall>d\<in>set files. snd (parse_chain env d) = None"
    and "concat (map (\<lambda>d. records_of (fst (parse_chain env d))) files) \<noteq> []"
    and "\<forall>rs. storeData_err env rs = None"
  shows "outcome (stdin_data env fs ps cfg db) = Exit 0
       \<and> mset (persisted_for (Some g) (persisted (stdin_data env fs ps cfg db)))
           = image_mset (\<lambda>e. e\<lparr>r_groupId := Some g\<rparr>)
               (mset (concat (map (\<lambda>d. records_of (fst (parse_chain env d))) files)))
       \<and> set (persisted_for (Some g) (persisted (stdin_data env fs ps cfg db)))
           = (\<lambda>e. e\<lparr>r_groupId := Some g\<rparr>)
               ` (\<Union>d\<in>set files. set (records_of (fst (parse_chain env d))))
       \<and> outcome (stdin_data env fs' ps' cfg (persisted (stdin_data env fs ps cfg db))) = Exit 0
       \<and> mset (persisted_for (Some g)
            (persisted (stdin_data env fs' ps' cfg (persisted (stdin_data env fs ps cfg db)))))
           = mset (persisted_for (Some g) (persisted (stdin_data env fs ps cfg db)))"
proof -
  note first = successful_run [OF assms, of fs ps db]
  note second = successful_run [OF assms, of fs' ps' "persisted (stdin_data env fs ps cfg db)"]
  have "set_mset (mset (persisted_for (Some g) (persisted (stdin_data env fs ps cfg db))))
      = set_mset (image_mset (\<lambda>e. e\<lparr>r_groupId := Some g\<rparr>)
               (mset (concat (map (\<lambda>d. records_of (fst (parse_chain env d))) files))))"
    using first by simp
  then have "set (persisted_for (Some g) (persisted (stdin_data env fs ps cfg db)))
           = (\<lambda>e. e\<lparr>r_groupId := Some g\<rparr>)
               ` (\<Union>d\<in>set files. set (records_of (fst (parse_chain env d))))"
    by simp
  then show ?thesis using first second by simp
qed

theorem replace_on_success_witness:
  "outcome (stdin_data good_env [] [] job_g1 old_db) = Exit 0
   \<and> persisted_for (Some ''g1'') old_db = [\<lparr>r_groupId = Some ''g1'', body = ''old''\<rparr>]
   \<and> persisted_for (Some ''g1'') (persisted (stdin_data good_env [] [] job_g1 old_db)) =
       [\<lparr>r_groupId = Some ''g1'', body = ''smbg''\<rparr>,
        \<lparr>r_groupId = Some ''g1'', body = ''bolus''\<rparr>,
        \<lparr>r_groupId = Some ''g1'', body = ''basal''\<rparr>]
   \<and> persisted_for (Some ''g1'')
        (persisted (stdin_data good_env [0, 0] [0, 0] job_g1
           (persisted (stdin_data good_env [] [] job_g1 old_db)))) =
       [\<lparr>r_groupId = Some ''g1'', body = ''smbg''\<rparr>,
        \<lparr>r_groupId = Some ''g1'', body = ''bolus''\<rparr>,
        \<lparr>r_groupId = Some ''g1'', body = ''basal''\<rparr>]"
proof -
  have d: "download good_env [] job_g1 =
      ([AntacidFetch ''carelink.csv'' (Some ''carelink'') carelink_config,
        StorageSave (Some ''g1'') ''carelink.csv''],
       Inr [\<lparr>source = ''carelink'', location = Some ''blob:carelink.csv'',
              config = Some carelink_config\<rparr>])"
    by (simp add: concrete_defs run_defs)
  have h1: "groupId job_g1 = Some ''g1''" by (simp add: job_g1_def)
  have h2: "mongoClient_start good_env = None" by (simp add: good_env_def)
  have h4: "deleteData_err good_env (Some ''g1'') = None" by (simp add: good_env_def)
  have h5: "\<forall>d\<in>set [\<lparr>source = ''carelink'', location = Some ''blob:carelink.csv'',
              config = Some carelink_config\<rparr>]. snd (parse_chain good_env d) = None"
    by (simp add: concrete_defs run_defs)
  have h6: "concat (map (\<lambda>d. records_of (fst (parse_chain good_env d)))
              [\<lparr>source = ''carelink'', location = Some ''blob:carelink.csv'',
                config = Some carelink_config\<rparr>]) \<noteq> []"
    by (simp add: concrete_defs run_defs)
  have h7: "\<forall>rs. storeData_err good_env rs = None" by (simp add: good_env_def)
  note t = replace_on_success [OF h1 h2 d h4 h5 h6 h7, of "[]" old_db "[0, 0]" "[0, 0]"]
  show ?thesis
    using t by (simp add: concrete_defs run_defs)
qed

text \<open>
  The claim as stated fails where the store fails: the one configured source is fetched
  and parsed into three records, yet the run exits with code 255 and the group is left
  without any persisted record, not with the three records of the run.
\<close>

theorem store_failure_after_parse:
  "download readonly_env [] job_g1 =
     ([AntacidFetch ''carelink.csv'' (Some ''carelink'') carelink_config,
       StorageSave (Some ''g1'') ''carelink.csv''],
      Inr [\<lparr>source = ''carelink'', location = Some ''blob:carelink.csv'',
             config = Some carelink_config\<rparr>])
   \<and> parse_chain readonly_env
        \<lparr>source = ''carelink'', location = Some ''blob:carelink.csv'',
         config = Some carelink_config\<rparr> =
       (Inl (AntacidParse ''carelink'' (Some ''blob:carelink.csv'') (Some carelink_config))
          # map Inr three_records, None)
   \<and> length three_records = 3
   \<and> outcome (stdin_data readonly_env [] [] job_g1 old_db) = Exit 255
   \<and> persisted_for (Some ''g1'') old_db = [\<lparr>r_groupId = Some ''g1'', body = ''old''\<rparr>]
   \<and> persisted_for (Some ''g1'') (persisted (stdin_data readonly_env [] [] job_g1 old_db)) = []"
  by (simp add: concrete_defs run_defs)

subsection \<open>How a run ends\<close>






subsection \<open>The calls of a run\<close>

lemma start_tasks_events_of:
  "\<forall>t\<in>set ts. \<forall>a. t = Inr a \<longrightarrow> (\<forall>e\<in>set (started a). P e) \<Longrightarrow>
     \<forall>e\<in>set (fst (start_tasks ts)). P e"
  by (induction ts rule: start_tasks.induct) (auto split: prod.splits sum.splits)

text \<open>The events of \<open>download\<close> are events of its four tasks, followed by those of \<open>fail\<close> when
  it fails.\<close>

lemma download_events_of_tasks:
  assumes "download env fs cfg = (devs, r)"
    and "\<forall>a. Inr a \<in> {carelink_task env cfg, diasend_task env cfg,
                        tconnect_task env cfg, dexcom_task env cfg}
             \<longrightarrow> (\<forall>e\<in>set (started a) \<union> set (later a). P e)"
  shows "\<exists>pre post. devs = pre @ post \<and> (\<forall>e\<in>set pre. P e)
           \<and> (post = [] \<or> (\<exists>reason error. post = fst (fail env reason error)))"
proof -
  let ?ts = "[carelink_task env cfg, diasend_task env cfg, tconnect_task env cfg, dexcom_task env cfg]"
  have tev: "\<forall>t\<in>set ?ts. \<forall>a. t = Inr a \<longrightarrow> (\<forall>e\<in>set (started a) \<union> set (later a). P e)"
    using assms(2) by simp
  obtain sevs q where st: "start_tasks ?ts = (sevs, q)" by (cases "start_tasks ?ts")
  have sev: "\<forall>e\<in>set sevs. P e"
    using start_tasks_events_of [of ?ts P] tev st by fastforce
  show ?thesis
  proof (cases q)
    case (Inl e)
    then have "devs = sevs @ []" using assms(1) st by (auto simp: download_def)
    then show ?thesis using sev by blast
  next
    case (Inr as)
    obtain levs t where il: "interleave fs (map chain_of as) = (levs, t)"
      by (cases "interleave fs (map chain_of as)")
    have ts: "?ts = map Inr as" using start_tasks_Inr [of ?ts sevs as] st Inr by auto
    have "set_mset (mset levs) \<subseteq> set_mset (mset (concat (map fst (map chain_of as))))"
      using interleave_items_sub [of fs "map chain_of as"] il
      by (metis fst_conv set_mset_mono)
    then have "set levs \<subseteq> (\<Union>a\<in>set as. set (later a))"
      by (auto simp: chain_of_events)
    moreover have "\<forall>a\<in>set as. \<forall>e\<in>set (later a). P e"
    proof
      fix a assume "a \<in> set as"
      then have "Inr a \<in> set ?ts" unfolding ts by simp
      then show "\<forall>e\<in>set (later a). P e" using tev by blast
    qed
    ultimately have lev: "\<forall>e\<in>set levs. P e" by blast
    show ?thesis
    proof (cases t)
      case None
      then have "devs = (sevs @ levs) @ []"
        using assms(1) st Inr il by (auto simp: download_def)
      then show ?thesis using sev lev by (metis Un_iff set_append)
    next
      case (Some re)
      obtain reason error where "re = (reason, error)" by (cases re)
      then have "devs = (sevs @ levs) @ fst (fail env reason error)"
        using assms(1) st Inr il Some by (auto simp: download_def fail_def split: prod.splits)
      then show ?thesis using sev lev by (metis Un_iff set_append)
    qed
  qed
qed

lemma all_download_events:
  assumes "devs = pre @ post" "\<forall>e\<in>set pre. P e"
    and "post = [] \<or> (\<exists>reason error. post = fst (fail env reason error))"
    and "\<And>reason error. \<forall>e\<in>set (fst (fail env reason error)). P e"
  shows "\<forall>e\<in>set devs. P e"
  using assms by auto

lemma fetch_events_of:
  "fetch env gid f cfg = Inr a \<Longrightarrow>
     \<forall>e\<in>set (started a) \<union> set (later a).
       (\<exists>c. cfg = Some c \<and> e = AntacidFetch f (ctype c) c) \<or> e = StorageSave gid f"
  by (auto simp: fetch_def split: option.splits sum.splits)

lemma describe_events_of:
  assumes "describe mk (fetch env gid f cfg) = Inr a"
  shows "\<forall>e\<in>set (started a) \<union> set (later a).
       (\<exists>c. cfg = Some c \<and> e = AntacidFetch f (ctype c) c) \<or> e = StorageSave gid f"
proof -
  obtain b where "fetch env gid f cfg = Inr b" "started a = started b" "later a = later b"
    using describe_events [OF assms] by blast
  then show ?thesis using fetch_events_of [of env gid f cfg b] by simp
qed

lemma dexcom_task_events_of:
  assumes "dexcom_task env cfg = Inr a"
  shows "\<forall>e\<in>set (started a) \<union> set (later a).
       (\<exists>c. dexcom cfg = Some c \<and> e = AntacidFetch ''dexcom.csv'' (ctype c) c)
     \<or> e = StorageSave (groupId cfg) ''dexcom.csv''
     \<or> (\<exists>c s l err v. dexcom cfg = Some c
           \<and> fetch env (groupId cfg) ''dexcom.csv'' (dexcom cfg) = Inr (Async s l (Cb err v))
           \<and> (e = FsUnlink (cfile c) \<or> (\<exists>error m. fs_unlink env (cfile c) = Some error
                                            \<and> e = LogWarn error m)))"
proof (cases "dexcom cfg")
  case None
  then show ?thesis using assms by (auto simp: dexcom_task_def)
next
  case (Some dex)
  obtain s l fin where f: "fetch env (groupId cfg) ''dexcom.csv'' (dexcom cfg) = Inr (Async s l fin)"
    using assms Some by (auto simp: dexcom_task_def split: sum.splits async.splits)
  note fe = fetch_events_of [OF f]
  show ?thesis
  proof (cases fin)
    case (Fail_called reason error)
    then have "a = Async s l (Fail_called reason error)"
      using assms Some f by (simp add: dexcom_task_def)
    then show ?thesis using fe by auto
  next
    case (Cb err v)
    then have "a = Async s
          (l @ FsUnlink (cfile dex)
             # (case fs_unlink env (cfile dex) of
                  None \<Rightarrow> []
                | Some error \<Rightarrow> [LogWarn error (''error deleting file['' @ cfile dex @ '']'')]))
          (Cb err (Some \<lparr>source = ''dexcom'', location = v, config = dexcom cfg\<rparr>))"
      using assms Some f by (simp add: dexcom_task_def)
    then show ?thesis using fe Some f Cb by (auto split: option.splits)
  qed
qed

lemma parse_chain_events_exact:
  "\<forall>e\<in>set (events_of (fst (parse_chain env d))).
     e = AntacidParse (source d) (location d) (config d)"
  by (auto simp: parse_chain_def events_of_filter split: option.splits prod.splits)

lemma parse_events_exact:
  assumes "interleave ps (map (parse_chain env) files) = (items, t)"
  shows "\<forall>e\<in>set (events_of items).
           \<exists>d\<in>set files. e = AntacidParse (source d) (location d) (config d)"
proof -
  have c: "\<forall>e\<in>set (events_of (concat (map fst (map (parse_chain env) fl)))).
      \<exists>d\<in>set fl. e = AntacidParse (source d) (location d) (config d)" for fl
  proof (induction fl)
    case Nil
    show ?case by simp
  next
    case (Cons d fl)
    show ?case using Cons parse_chain_events_exact [of env d]
      by (auto simp: events_of_append)
  qed
  have "mset items \<subseteq># mset (concat (map fst (map (parse_chain env) files)))"
    using interleave_items_sub [of ps "map (parse_chain env) files"] assms by simp
  then have "set (events_of items)
      \<subseteq> set (events_of (concat (map fst (map (parse_chain env) files))))"
    by (rule events_of_mset)
  then show ?thesis using c [of files] by blast
qed

text \<open>Where the events of a run come from.\<close>

lemma go_trace_events:
  assumes "e \<in> set (trace (go env fs ps cfg db))"
  shows "e = MongoStart \<or> fail_event e \<or> is_delete e \<or> is_store e
       \<or> (\<exists>devs r. download env fs cfg = (devs, r) \<and> e \<in> set devs)
       \<or> (\<exists>devs files d. download env fs cfg = (devs, Inr files) \<and> d \<in> set files
             \<and> e = AntacidParse (source d) (location d) (config d))"
proof -
  have parsed: ?thesis
    if "download env fs cfg = (devs, Inr files)"
      and "interleave ps (map (parse_chain env) files) = (items, t)"
      and "e \<in> set (events_of items)" for devs files items t
    using parse_events_exact [OF that(2)] that(1,3) by blast
  have failed: ?thesis if "e \<in> set (fst (fail env reason error))" for reason error
    using fail_events [of env reason error] that by blast
  have fetched: ?thesis if "download env fs cfg = (devs, r)" and "e \<in> set devs" for devs r
    using that by blast
  show ?thesis
  proof (cases rule: go_cases [of env fs ps cfg db])
    case (start_failed err)
    then have "e = MongoStart \<or> e \<in> set (fst (fail env ''Just another error'' err))"
      using assms by simp
    then show ?thesis using failed by blast
  next
    case (download_ended devs oc)
    then have "e = MongoStart \<or> e \<in> set devs" using assms by simp
    then show ?thesis using fetched [OF download_ended(2)] by blast
  next
    case (delete_failed devs files err)
    then have "e = MongoStart \<or> e \<in> set devs \<or> e = DeleteData (groupId cfg)
        \<or> e \<in> set (fst (fail env ''Just another error'' err))"
      using assms by auto
    then show ?thesis using fetched [OF delete_failed(2)] failed by fastforce
  next
    case (parse_failed devs files items err)
    then have "e = MongoStart \<or> e \<in> set devs \<or> e = DeleteData (groupId cfg)
        \<or> e \<in> set (events_of items)
        \<or> e \<in> set (fst (fail env ''Problem parsing data'' err))"
      using assms by auto
    then show ?thesis
      using fetched [OF parse_failed(2)] failed parsed [OF parse_failed(2,4)] by fastforce
  next
    case (no_results devs files items)
    then have "e = MongoStart \<or> e \<in> set devs \<or> e = DeleteData (groupId cfg)
        \<or> e \<in> set (events_of items)
        \<or> e \<in> set (fst (fail env ''No results'' ''No results''))"
      using assms by auto
    then show ?thesis
      using fetched [OF no_results(2)] failed parsed [OF no_results(2,4)] by fastforce
  next
    case (store_failed devs files items err)
    then have "e = MongoStart \<or> e \<in> set devs \<or> e = DeleteData (groupId cfg)
        \<or> e \<in> set (events_of items)
        \<or> e = StoreData (map (\<lambda>e. e\<lparr>r_groupId := groupId cfg\<rparr>) (records_of items))
        \<or> e \<in> set (fst (fail env ''Problem with DB, Oh Noes!'' err))"
      using assms by auto
    then show ?thesis
      using fetched [OF store_failed(2)] failed parsed [OF store_failed(2,4)] by fastforce
  next
    case (stored devs files items)
    then have "e = MongoStart \<or> e \<in> set devs \<or> e = DeleteData (groupId cfg)
        \<or> e \<in> set (events_of items)
        \<or> e = StoreData (map (\<lambda>e. e\<lparr>r_groupId := groupId cfg\<rparr>) (records_of items))
        \<or> e = MongoClose"
      using assms by auto
    then show ?thesis
      using fetched [OF stored(2)] parsed [OF stored(2,4)] by fastforce
  qed
qed

subsection \<open>The staging file of dexcom\<close>

lemma fetch_kind_not_unlink:
  assumes "\<forall>e\<in>S. (\<exists>c. cfg = Some c \<and> e = AntacidFetch f (ctype c) c) \<or> e = StorageSave gid f"
  shows "\<forall>e\<in>S. \<not> is_unlink e"
  using assms by fastforce

text \<open>
  C7, where the code departs from it. Whenever dexcom is configured and its fetcher calls
  back with an error, no run removes the staging file, under any schedule and whatever
  else is configured: \<open>download\<close> removes the file in the callback it passes to \<open>fetch\<close>,
  and on a fetcher error \<open>fetch\<close> calls \<open>fail\<close> and returns without calling that callback.
  The concrete runs after the theorem show the three cases: the fetcher fails (the file
  stays), the save fails (the file is removed, then the job fails), and everything
  succeeds (the removal fails, which is only logged, and the job exits with code 0).
\<close>

theorem fetcher_failure_keeps_file:
  assumes "dexcom cfg = Some dex"
    and "ingestion_at env (ctype dex) = Some antacid"
    and "antacid_fetch antacid dex = Inl err"
  shows "FsUnlink f \<notin> set (trace (stdin_data env fs ps cfg db))"
proof
  assume u: "FsUnlink f \<in> set (trace (stdin_data env fs ps cfg db))"
  then obtain g where "groupId cfg = Some g"
    by (cases "groupId cfg") (auto simp: stdin_data_def hasProperty_def)
  then have "FsUnlink f \<in> set (trace (go env fs ps cfg db))"
    using u by (simp add: stdin_data_go)
  then have "\<exists>devs r. download env fs cfg = (devs, r) \<and> FsUnlink f \<in> set devs"
    using go_trace_events [of "FsUnlink f" env fs ps cfg db] by simp
  then obtain devs r where d: "download env fs cfg = (devs, r)" and m: "FsUnlink f \<in> set devs"
    by blast
  have fe: "fetch env (groupId cfg) ''dexcom.csv'' (dexcom cfg)
      = Inr (Async [AntacidFetch ''dexcom.csv'' (ctype dex) dex] []
               (Fail_called ''Couldn't fetch!?'' err))"
    using assms by (simp add: fetch_def)
  have "\<forall>a. Inr a \<in> {carelink_task env cfg, diasend_task env cfg,
                        tconnect_task env cfg, dexcom_task env cfg}
             \<longrightarrow> (\<forall>e\<in>set (started a) \<union> set (later a). \<not> is_unlink e)"
  proof (intro allI impI)
    fix a
    assume "Inr a \<in> {carelink_task env cfg, diasend_task env cfg,
                        tconnect_task env cfg, dexcom_task env cfg}"
    then consider "carelink_task env cfg = Inr a" | "diasend_task env cfg = Inr a"
      | "tconnect_task env cfg = Inr a" | "dexcom_task env cfg = Inr a" by auto
    then show "\<forall>e\<in>set (started a) \<union> set (later a). \<not> is_unlink e"
    proof cases
      case 1
      show ?thesis
        by (rule fetch_kind_not_unlink) (rule describe_events_of [OF 1 [unfolded carelink_task_def]])
    next
      case 2
      show ?thesis
        by (rule fetch_kind_not_unlink) (rule describe_events_of [OF 2 [unfolded diasend_task_def]])
    next
      case 3
      show ?thesis
        by (rule fetch_kind_not_unlink) (rule describe_events_of [OF 3 [unfolded tconnect_task_def]])
    next
      case 4
      have "a = Async [AntacidFetch ''dexcom.csv'' (ctype dex) dex] []
               (Fail_called ''Couldn't fetch!?'' err)"
        using 4 fe assms(1) by (simp add: dexcom_task_def)
      then show ?thesis by simp
    qed
  qed
  then obtain pre post where "devs = pre @ post" "\<forall>e\<in>set pre. \<not> is_unlink e"
    "post = [] \<or> (\<exists>reason error. post = fst (fail env reason error))"
    using download_events_of_tasks [OF d, of "\<lambda>e. \<not> is_unlink e"] by blast
  moreover have "\<forall>e\<in>set (fst (fail env reason error)). \<not> is_unlink e" for reason error
    by (auto simp: fail_def split: option.splits)
  ultimately have "\<forall>e\<in>set devs. \<not> is_unlink e" by fastforce
  then have "\<not> is_unlink (FsUnlink f)" using m by blast
  then show False by simp
qed

theorem fetcher_failure_keeps_file_witness:
  "dexcom job_dexcom_broken = Some broken_dexcom_config
   \<and> ingestion_at good_env (ctype broken_dexcom_config) = Some failing_adapter
   \<and> antacid_fetch failing_adapter broken_dexcom_config = Inl ''ECONNRESET''
   \<and> FsUnlink ''/tmp/dexcom.csv''
        \<notin> set (trace (stdin_data good_env [] [] job_dexcom_broken old_db))
   \<and> stdin_data good_env [] [] job_dexcom_broken old_db =
     \<lparr>trace = [MongoStart,
               AntacidFetch ''dexcom.csv'' (Some ''broken'') broken_dexcom_config,
               MongoClose,
               LogWarn ''ECONNRESET'' ''Failing due to error, with reason[Couldn't fetch!?].'',
               WriteErrorJson ''/tmp/task'' ''Couldn't fetch!?''],
      outcome = Exit 255, persisted = old_db\<rparr>
   \<and> stdin_data full_env [] [] job_dexcom old_db =
     \<lparr>trace = [MongoStart,
               AntacidFetch ''dexcom.csv'' (Some ''dexcom'') dexcom_config,
               StorageSave (Some ''g5'') ''dexcom.csv'',
               FsUnlink ''/tmp/dexcom.csv'',
               LogWarn ''ENOENT'' ''error deleting file[/tmp/dexcom.csv]'',
               MongoClose,
               LogWarn ''disk full'' ''Failing due to error, with reason[disk full].'',
               WriteErrorJson ''/tmp/task'' ''disk full''],
      outcome = Exit 255, persisted = old_db\<rparr>
   \<and> outcome (stdin_data good_env [] [] job_dexcom old_db) = Exit 0
   \<and> take 5 (trace (stdin_data good_env [] [] job_dexcom old_db)) =
       [MongoStart,
        AntacidFetch ''dexcom.csv'' (Some ''dexcom'') dexcom_config,
        StorageSave (Some ''g5'') ''dexcom.csv'',
        FsUnlink ''/tmp/dexcom.csv'',
        LogWarn ''ENOENT'' ''error deleting file[/tmp/dexcom.csv]'']"
proof -
  have h1: "dexcom job_dexcom_broken = Some broken_dexcom_config"
    by (simp add: job_dexcom_broken_def)
  have h2: "ingestion_at good_env (ctype broken_dexcom_config) = Some failing_adapter"
    by (simp add: ingestion_at_def good_env_def broken_dexcom_config_def)
  have h3: "antacid_fetch failing_adapter broken_dexcom_config = Inl ''ECONNRESET''"
    by (simp add: failing_adapter_def)
  note t = fetcher_failure_keeps_file
    [OF h1 h2 h3, of "''/tmp/dexcom.csv''" "[]" "[]" old_db]
  have e: "stdin_data good_env [] [] job_dexcom_broken old_db =
     \<lparr>trace = [MongoStart,
               AntacidFetch ''dexcom.csv'' (Some ''broken'') broken_dexcom_config,
               MongoClose,
               LogWarn ''ECONNRESET'' ''Failing due to error, with reason[Couldn't fetch!?].'',
               WriteErrorJson ''/tmp/task'' ''Couldn't fetch!?''],
      outcome = Exit 255, persisted = old_db\<rparr>"
    by (simp add: concrete_defs run_defs)
  have s: "stdin_data full_env [] [] job_dexcom old_db =
     \<lparr>trace = [MongoStart,
               AntacidFetch ''dexcom.csv'' (Some ''dexcom'') dexcom_config,
               StorageSave (Some ''g5'') ''dexcom.csv'',
               FsUnlink ''/tmp/dexcom.csv'',
               LogWarn ''ENOENT'' ''error deleting file[/tmp/dexcom.csv]'',
               MongoClose,
               LogWarn ''disk full'' ''Failing due to error, with reason[disk full].'',
               WriteErrorJson ''/tmp/task'' ''disk full''],
      outcome = Exit 255, persisted = old_db\<rparr>"
    by (simp add: concrete_defs run_defs)
  have g: "outcome (stdin_data good_env [] [] job_dexcom old_db) = Exit 0
   \<and> take 5 (trace (stdin_data good_env [] [] job_dexcom old_db)) =
       [MongoStart,
        AntacidFetch ''dexcom.csv'' (Some ''dexcom'') dexcom_config,
        StorageSave (Some ''g5'') ''dexcom.csv'',
        FsUnlink ''/tmp/dexcom.csv'',
        LogWarn ''ENOENT'' ''error deleting file[/tmp/dexcom.csv]'']"
    by (simp add: concrete_defs run_defs)
  show ?thesis using h1 h2 h3 t e s g by simp
qed

subsection \<open>Location descriptors\<close>

text \<open>The locations \<open>download\<close> calls back with: one for every configured source, in the
  order of the tasks, and none for a source that is not configured. The descriptor of
  tconnect has no \<open>config\<close>.\<close>

lemma download_descriptors:
  assumes "download env fs cfg = (devs, Inr files)"
  shows "\<exists>v1 v2 v3 v4.
      files =
        (case v1 of None \<Rightarrow> []
         | Some l \<Rightarrow> [\<lparr>source = ''carelink'', location = Some l, config = carelink cfg\<rparr>])
      @ (case v2 of None \<Rightarrow> []
         | Some l \<Rightarrow> [\<lparr>source = ''diasend'', location = Some l, config = diasend cfg\<rparr>])
      @ (case v3 of None \<Rightarrow> []
         | Some l \<Rightarrow> [\<lparr>source = ''tconnect'', location = Some l, config = None\<rparr>])
      @ (case v4 of None \<Rightarrow> []
         | Some l \<Rightarrow> [\<lparr>source = ''dexcom'', location = Some l, config = dexcom cfg\<rparr>])
    \<and> (v1 = None \<longleftrightarrow> carelink cfg = None) \<and> (v2 = None \<longleftrightarrow> diasend cfg = None)
    \<and> (v3 = None \<longleftrightarrow> tconnect cfg = None) \<and> (v4 = None \<longleftrightarrow> dexcom cfg = None)
    \<and> (\<exists>s l. fetch env (groupId cfg) ''carelink.csv'' (carelink cfg) = Inr (Async s l (Cb None v1)))
    \<and> (\<exists>s l. fetch env (groupId cfg) ''diasend.xls'' (diasend cfg) = Inr (Async s l (Cb None v2)))
    \<and> (\<exists>s l. fetch env (groupId cfg) ''tconnect.xml'' (tconnect cfg) = Inr (Async s l (Cb None v3)))
    \<and> (\<exists>s l. fetch env (groupId cfg) ''dexcom.csv'' (dexcom cfg) = Inr (Async s l (Cb None v4)))"
proof -
  obtain a1 a2 a3 a4 where
    t: "carelink_task env cfg = Inr a1" "diasend_task env cfg = Inr a2"
       "tconnect_task env cfg = Inr a3" "dexcom_task env cfg = Inr a4"
    and e: "snd (chain_of a1) = None" "snd (chain_of a2) = None"
           "snd (chain_of a3) = None" "snd (chain_of a4) = None"
    and f: "files = List.map_filter result_of [a1, a2, a3, a4]"
    using download_Inr [OF assms] by blast
  obtain s1 l1 v1 where 1:
    "fetch env (groupId cfg) ''carelink.csv'' (carelink cfg) = Inr (Async s1 l1 (Cb None v1))"
    "result_of a1 = map_option
       (\<lambda>loc. \<lparr>source = ''carelink'', location = Some loc, config = carelink cfg\<rparr>) v1"
    using carelink_task_ok [OF t(1) e(1)] by blast
  obtain s2 l2 v2 where 2:
    "fetch env (groupId cfg) ''diasend.xls'' (diasend cfg) = Inr (Async s2 l2 (Cb None v2))"
    "result_of a2 = map_option
       (\<lambda>loc. \<lparr>source = ''diasend'', location = Some loc, config = diasend cfg\<rparr>) v2"
    using diasend_task_ok [OF t(2) e(2)] by blast
  obtain s3 l3 v3 where 3:
    "fetch env (groupId cfg) ''tconnect.xml'' (tconnect cfg) = Inr (Async s3 l3 (Cb None v3))"
    "result_of a3 = map_option
       (\<lambda>loc. \<lparr>source = ''tconnect'', location = Some loc, config = None\<rparr>) v3"
    using tconnect_task_ok [OF t(3) e(3)] by blast
  obtain s4 l4 v4 where 4:
    "fetch env (groupId cfg) ''dexcom.csv'' (dexcom cfg) = Inr (Async s4 l4 (Cb None v4))"
    "result_of a4 = map_option
       (\<lambda>loc. \<lparr>source = ''dexcom'', location = Some loc, config = dexcom cfg\<rparr>) v4"
    using dexcom_task_ok [OF t(4) e(4)] by blast
  have files: "files =
        (case v1 of None \<Rightarrow> []
         | Some l \<Rightarrow> [\<lparr>source = ''carelink'', location = Some l, config = carelink cfg\<rparr>])
      @ (case v2 of None \<Rightarrow> []
         | Some l \<Rightarrow> [\<lparr>source = ''diasend'', location = Some l, config = diasend cfg\<rparr>])
      @ (case v3 of None \<Rightarrow> []
         | Some l \<Rightarrow> [\<lparr>source = ''tconnect'', location = Some l, config = None\<rparr>])
      @ (case v4 of None \<Rightarrow> []
         | Some l \<Rightarrow> [\<lparr>source = ''dexcom'', location = Some l, config = dexcom cfg\<rparr>])"
    unfolding f using 1(2) 2(2) 3(2) 4(2)
    by (simp add: List.map_filter_def split: option.splits)
  show ?thesis
  proof (intro exI conjI)
    show "files =
        (case v1 of None \<Rightarrow> []
         | Some l \<Rightarrow> [\<lparr>source = ''carelink'', location = Some l, config = carelink cfg\<rparr>])
      @ (case v2 of None \<Rightarrow> []
         | Some l \<Rightarrow> [\<lparr>source = ''diasend'', location = Some l, config = diasend cfg\<rparr>])
      @ (case v3 of None \<Rightarrow> []
         | Some l \<Rightarrow> [\<lparr>source = ''tconnect'', location = Some l, config = None\<rparr>])
      @ (case v4 of None \<Rightarrow> []
         | Some l \<Rightarrow> [\<lparr>source = ''dexcom'', location = Some l, config = dexcom cfg\<rparr>])"
      by (rule files)
    show "v1 = None \<longleftrightarrow> carelink cfg = None" by (rule fetch_ok [OF 1(1)])
    show "v2 = None \<longleftrightarrow> diasend cfg = None" by (rule fetch_ok [OF 2(1)])
    show "v3 = None \<longleftrightarrow> tconnect cfg = None" by (rule fetch_ok [OF 3(1)])
    show "v4 = None \<longleftrightarrow> dexcom cfg = None" by (rule fetch_ok [OF 4(1)])
    show "fetch env (groupId cfg) ''carelink.csv'' (carelink cfg) = Inr (Async s1 l1 (Cb None v1))"
      by (rule 1(1))
    show "fetch env (groupId cfg) ''diasend.xls'' (diasend cfg) = Inr (Async s2 l2 (Cb None v2))"
      by (rule 2(1))
    show "fetch env (groupId cfg) ''tconnect.xml'' (tconnect cfg) = Inr (Async s3 l3 (Cb None v3))"
      by (rule 3(1))
    show "fetch env (groupId cfg) ''dexcom.csv'' (dexcom cfg) = Inr (Async s4 l4 (Cb None v4))"
      by (rule 4(1))
  qed
qed

lemma named_one_of:
  assumes "\<forall>e\<in>S. \<forall>f t c. e = AntacidFetch f t c \<longrightarrow> f = name \<and> cfgk = Some c \<and> t = ctype c"
    and "name = n1 \<and> cfgk = k1 \<or> name = n2 \<and> cfgk = k2 \<or> name = n3 \<and> cfgk = k3
         \<or> name = n4 \<and> cfgk = k4"
  shows "\<forall>e\<in>S. \<forall>f t c. e = AntacidFetch f t c \<longrightarrow>
           (f = n1 \<and> k1 = Some c \<or> f = n2 \<and> k2 = Some c \<or> f = n3 \<and> k3 = Some c
            \<or> f = n4 \<and> k4 = Some c) \<and> t = ctype c"
  using assms by blast

lemma fetch_kind_named:
  assumes "\<forall>e\<in>S. (\<exists>c. cfgk = Some c \<and> e = AntacidFetch name (ctype c) c) \<or> e = StorageSave gid name"
  shows "\<forall>e\<in>S. \<forall>f t c. e = AntacidFetch f t c \<longrightarrow> f = name \<and> cfgk = Some c \<and> t = ctype c"
  using assms by fastforce

text \<open>A fetcher is only called for a configured source, with that source's file name and
  configuration.\<close>

lemma fetch_calls_configured:
  assumes "AntacidFetch f t c \<in> set (trace (stdin_data env fs ps cfg db))"
  shows "(f = ''carelink.csv'' \<and> carelink cfg = Some c
          \<or> f = ''diasend.xls'' \<and> diasend cfg = Some c
          \<or> f = ''tconnect.xml'' \<and> tconnect cfg = Some c
          \<or> f = ''dexcom.csv'' \<and> dexcom cfg = Some c)
       \<and> t = ctype c"
proof -
  let ?Q = "\<lambda>f t c. (f = ''carelink.csv'' \<and> carelink cfg = Some c
          \<or> f = ''diasend.xls'' \<and> diasend cfg = Some c
          \<or> f = ''tconnect.xml'' \<and> tconnect cfg = Some c
          \<or> f = ''dexcom.csv'' \<and> dexcom cfg = Some c)
       \<and> t = ctype c"
  let ?P = "\<lambda>e. \<forall>f t c. e = AntacidFetch f t c \<longrightarrow> ?Q f t c"
  obtain g where "groupId cfg = Some g"
    using assms by (cases "groupId cfg") (auto simp: stdin_data_def hasProperty_def)
  then have "AntacidFetch f t c \<in> set (trace (go env fs ps cfg db))"
    using assms by (simp add: stdin_data_go)
  then have "\<exists>devs r. download env fs cfg = (devs, r) \<and> AntacidFetch f t c \<in> set devs"
    using go_trace_events [of "AntacidFetch f t c" env fs ps cfg db] by simp
  then obtain devs r where d: "download env fs cfg = (devs, r)"
    and m: "AntacidFetch f t c \<in> set devs"
    by blast
  have "\<forall>a. Inr a \<in> {carelink_task env cfg, diasend_task env cfg,
                        tconnect_task env cfg, dexcom_task env cfg}
             \<longrightarrow> (\<forall>e\<in>set (started a) \<union> set (later a). ?P e)"
  proof (intro allI impI)
    fix a
    assume "Inr a \<in> {carelink_task env cfg, diasend_task env cfg,
                        tconnect_task env cfg, dexcom_task env cfg}"
    then consider "carelink_task env cfg = Inr a" | "diasend_task env cfg = Inr a"
      | "tconnect_task env cfg = Inr a" | "dexcom_task env cfg = Inr a" by auto
    then show "\<forall>e\<in>set (started a) \<union> set (later a). ?P e"
    proof cases
      case 1
      have "\<forall>e\<in>set (started a) \<union> set (later a). \<forall>f t c. e = AntacidFetch f t c \<longrightarrow>
          f = ''carelink.csv'' \<and> carelink cfg = Some c \<and> t = ctype c"
        by (rule fetch_kind_named) (rule describe_events_of [OF 1 [unfolded carelink_task_def]])
      then show ?thesis by (rule named_one_of) simp
    next
      case 2
      have "\<forall>e\<in>set (started a) \<union> set (later a). \<forall>f t c. e = AntacidFetch f t c \<longrightarrow>
          f = ''diasend.xls'' \<and> diasend cfg = Some c \<and> t = ctype c"
        by (rule fetch_kind_named) (rule describe_events_of [OF 2 [unfolded diasend_task_def]])
      then show ?thesis by (rule named_one_of) simp
    next
      case 3
      have "\<forall>e\<in>set (started a) \<union> set (later a). \<forall>f t c. e = AntacidFetch f t c \<longrightarrow>
          f = ''tconnect.xml'' \<and> tconnect cfg = Some c \<and> t = ctype c"
        by (rule fetch_kind_named) (rule describe_events_of [OF 3 [unfolded tconnect_task_def]])
      then show ?thesis by (rule named_one_of) simp
    next
      case 4
      have "\<forall>e\<in>set (started a) \<union> set (later a). \<forall>f t c. e = AntacidFetch f t c \<longrightarrow>
          f = ''dexcom.csv'' \<and> dexcom cfg = Some c \<and> t = ctype c"
      proof (intro ballI allI impI)
        fix e f t c
        assume "e \<in> set (started a) \<union> set (later a)" and e: "e = AntacidFetch f t c"
        then have "(\<exists>c. dexcom cfg = Some c \<and> e = AntacidFetch ''dexcom.csv'' (ctype c) c)
           \<or> e = StorageSave (groupId cfg) ''dexcom.csv''
           \<or> (\<exists>c s l err v. dexcom cfg = Some c
                \<and> fetch env (groupId cfg) ''dexcom.csv'' (dexcom cfg) = Inr (Async s l (Cb err v))
                \<and> (e = FsUnlink (cfile c) \<or> (\<exists>error m. fs_unlink env (cfile c) = Some error
                                            \<and> e = LogWarn error m)))"
          using dexcom_task_events_of [OF 4] by blast
        then have "\<exists>c'. dexcom cfg = Some c' \<and> AntacidFetch f t c = AntacidFetch ''dexcom.csv'' (ctype c') c'"
          unfolding e by auto
        then show "f = ''dexcom.csv'' \<and> dexcom cfg = Some c \<and> t = ctype c" by auto
      qed
      then show ?thesis by (rule named_one_of) simp
    qed
  qed
  from download_events_of_tasks [OF d this]
  obtain pre post where pp: "devs = pre @ post" "\<forall>e\<in>set pre. ?P e"
    "post = [] \<or> (\<exists>reason error. post = fst (fail env reason error))"
    by (elim exE conjE) (rule that; assumption)
  have fl: "\<forall>e\<in>set (fst (fail env reason error)). ?P e" for reason error
    by (auto simp: fail_def split: option.splits)
  have "\<forall>e\<in>set devs. ?P e"
    using pp fl by (rule all_download_events)
  from this m have "?P (AntacidFetch f t c)" by (rule bspec)
  then show ?thesis by simp
qed

text \<open>A parser is only called for a configured source, with the configuration of the
  source's descriptor: the source's own configuration, but none for tconnect.\<close>

lemma parse_calls_configured:
  assumes "AntacidParse k l c \<in> set (trace (stdin_data env fs ps cfg db))"
  shows "k = ''carelink'' \<and> carelink cfg \<noteq> None \<and> c = carelink cfg
       \<or> k = ''diasend'' \<and> diasend cfg \<noteq> None \<and> c = diasend cfg
       \<or> k = ''tconnect'' \<and> tconnect cfg \<noteq> None \<and> c = None
       \<or> k = ''dexcom'' \<and> dexcom cfg \<noteq> None \<and> c = dexcom cfg"
proof -
  obtain g where "groupId cfg = Some g"
    using assms by (cases "groupId cfg") (auto simp: stdin_data_def hasProperty_def)
  then have mem: "AntacidParse k l c \<in> set (trace (go env fs ps cfg db))"
    using assms by (simp add: stdin_data_go)
  have "\<not> (\<exists>devs r. download env fs cfg = (devs, r) \<and> AntacidParse k l c \<in> set devs)"
  proof
    assume "\<exists>devs r. download env fs cfg = (devs, r) \<and> AntacidParse k l c \<in> set devs"
    then obtain devs r where "download env fs cfg = (devs, r)" "AntacidParse k l c \<in> set devs"
      by blast
    then have "download_event (AntacidParse k l c) \<or> fail_event (AntacidParse k l c)"
      using download_events by blast
    then show False by simp
  qed
  moreover have "(\<exists>devs r. download env fs cfg = (devs, r) \<and> AntacidParse k l c \<in> set devs)
      \<or> (\<exists>devs files d. download env fs cfg = (devs, Inr files) \<and> d \<in> set files
            \<and> AntacidParse k l c = AntacidParse (source d) (location d) (config d))"
    using go_trace_events [OF mem] by simp
  ultimately have "\<exists>devs files d. download env fs cfg = (devs, Inr files) \<and> d \<in> set files
      \<and> AntacidParse k l c = AntacidParse (source d) (location d) (config d)"
    by blast
  then obtain devs files d where dl: "download env fs cfg = (devs, Inr files)"
    and d: "d \<in> set files" "k = source d" "c = config d"
    by auto
  obtain v1 v2 v3 v4 where
    files: "files =
        (case v1 of None \<Rightarrow> []
         | Some l \<Rightarrow> [\<lparr>source = ''carelink'', location = Some l, config = carelink cfg\<rparr>])
      @ (case v2 of None \<Rightarrow> []
         | Some l \<Rightarrow> [\<lparr>source = ''diasend'', location = Some l, config = diasend cfg\<rparr>])
      @ (case v3 of None \<Rightarrow> []
         | Some l \<Rightarrow> [\<lparr>source = ''tconnect'', location = Some l, config = None\<rparr>])
      @ (case v4 of None \<Rightarrow> []
         | Some l \<Rightarrow> [\<lparr>source = ''dexcom'', location = Some l, config = dexcom cfg\<rparr>])"
    and v: "v1 = None \<longleftrightarrow> carelink cfg = None" "v2 = None \<longleftrightarrow> diasend cfg = None"
           "v3 = None \<longleftrightarrow> tconnect cfg = None" "v4 = None \<longleftrightarrow> dexcom cfg = None"
    using download_descriptors [OF dl] by (elim exE conjE) (rule that; assumption)
  have "(source d = ''carelink'' \<and> v1 \<noteq> None \<and> config d = carelink cfg)
      \<or> (source d = ''diasend'' \<and> v2 \<noteq> None \<and> config d = diasend cfg)
      \<or> (source d = ''tconnect'' \<and> v3 \<noteq> None \<and> config d = None)
      \<or> (source d = ''dexcom'' \<and> v4 \<noteq> None \<and> config d = dexcom cfg)"
    using d(1) unfolding files by (auto split: option.splits)
  then show ?thesis using d(2,3) v by blast
qed

text \<open>
  C5, as the code has it. When \<open>download\<close> calls back, its locations hold exactly one
  descriptor for every configured source (in the order carelink, diasend, tconnect,
  dexcom), each with the location its save returned, and none for a source that is not
  configured. The descriptors of carelink, diasend and dexcom carry the source's
  configuration; the descriptor of tconnect carries none, so it has not the shape
  \<open>{source, location, config}\<close>. In every run a fetcher is called only for a configured
  source, and a parser is called only for a configured source; the parser of tconnect is
  called without a configuration.
\<close>

theorem location_descriptors:
  "(download env fs cfg = (devs, Inr files) \<longrightarrow>
     (\<exists>v1 v2 v3 v4.
        files =
          (case v1 of None \<Rightarrow> []
           | Some l \<Rightarrow> [\<lparr>source = ''carelink'', location = Some l, config = carelink cfg\<rparr>])
        @ (case v2 of None \<Rightarrow> []
           | Some l \<Rightarrow> [\<lparr>source = ''diasend'', location = Some l, config = diasend cfg\<rparr>])
        @ (case v3 of None \<Rightarrow> []
           | Some l \<Rightarrow> [\<lparr>source = ''tconnect'', location = Some l, config = None\<rparr>])
        @ (case v4 of None \<Rightarrow> []
           | Some l \<Rightarrow> [\<lparr>source = ''dexcom'', location = Some l, config = dexcom cfg\<rparr>])
      \<and> (v1 = None \<longleftrightarrow> carelink cfg = None) \<and> (v2 = None \<longleftrightarrow> diasend cfg = None)
      \<and> (v3 = None \<longleftrightarrow> tconnect cfg = None) \<and> (v4 = None \<longleftrightarrow> dexcom cfg = None)
      \<and> (\<exists>s l. fetch env (groupId cfg) ''carelink.csv'' (carelink cfg)
                  = Inr (Async s l (Cb None v1)))
      \<and> (\<exists>s l. fetch env (groupId cfg) ''diasend.xls'' (diasend cfg)
                  = Inr (Async s l (Cb None v2)))
      \<and> (\<exists>s l. fetch env (groupId cfg) ''tconnect.xml'' (tconnect cfg)
                  = Inr (Async s l (Cb None v3)))
      \<and> (\<exists>s l. fetch env (groupId cfg) ''dexcom.csv'' (dexcom cfg)
                  = Inr (Async s l (Cb None v4)))))
 \<and> (AntacidFetch f t c \<in> set (trace (stdin_data env fs ps cfg db)) \<longrightarrow>
      (f = ''carelink.csv'' \<and> carelink cfg = Some c
       \<or> f = ''diasend.xls'' \<and> diasend cfg = Some c
       \<or> f = ''tconnect.xml'' \<and> tconnect cfg = Some c
       \<or> f = ''dexcom.csv'' \<and> dexcom cfg = Some c)
      \<and> t = ctype c)
 \<and> (AntacidParse k l pc \<in> set (trace (stdin_data env fs ps cfg db)) \<longrightarrow>
      k = ''carelink'' \<and> carelink cfg \<noteq> None \<and> pc = carelink cfg
      \<or> k = ''diasend'' \<and> diasend cfg \<noteq> None \<and> pc = diasend cfg
      \<or> k = ''tconnect'' \<and> tconnect cfg \<noteq> None \<and> pc = None
      \<or> k = ''dexcom'' \<and> dexcom cfg \<noteq> None \<and> pc = dexcom cfg)"
proof (intro conjI impI)
  assume "download env fs cfg = (devs, Inr files)"
  then show "\<exists>v1 v2 v3 v4.
        files =
          (case v1 of None \<Rightarrow> []
           | Some l \<Rightarrow> [\<lparr>source = ''carelink'', location = Some l, config = carelink cfg\<rparr>])
        @ (case v2 of None \<Rightarrow> []
           | Some l \<Rightarrow> [\<lparr>source = ''diasend'', location = Some l, config = diasend cfg\<rparr>])
        @ (case v3 of None \<Rightarrow> []
           | Some l \<Rightarrow> [\<lparr>source = ''tconnect'', location = Some l, config = None\<rparr>])
        @ (case v4 of None \<Rightarrow> []
           | Some l \<Rightarrow> [\<lparr>source = ''dexcom'', location = Some l, config = dexcom cfg\<rparr>])
      \<and> (v1 = None \<longleftrightarrow> carelink cfg = None) \<and> (v2 = None \<longleftrightarrow> diasend cfg = None)
      \<and> (v3 = None \<longleftrightarrow> tconnect cfg = None) \<and> (v4 = None \<longleftrightarrow> dexcom cfg = None)
      \<and> (\<exists>s l. fetch env (groupId cfg) ''carelink.csv'' (carelink cfg)
                  = Inr (Async s l (Cb None v1)))
      \<and> (\<exists>s l. fetch env (groupId cfg) ''diasend.xls'' (diasend cfg)
                  = Inr (Async s l (Cb None v2)))
      \<and> (\<exists>s l. fetch env (groupId cfg) ''tconnect.xml'' (tconnect cfg)
                  = Inr (Async s l (Cb None v3)))
      \<and> (\<exists>s l. fetch env (groupId cfg) ''dexcom.csv'' (dexcom cfg)
                  = Inr (Async s l (Cb None v4)))"
    by (rule download_descriptors)
next
  assume a: "AntacidFetch f t c \<in> set (trace (stdin_data env fs ps cfg db))"
  show "f = ''carelink.csv'' \<and> carelink cfg = Some c
       \<or> f = ''diasend.xls'' \<and> diasend cfg = Some c
       \<or> f = ''tconnect.xml'' \<and> tconnect cfg = Some c
       \<or> f = ''dexcom.csv'' \<and> dexcom cfg = Some c"
    using fetch_calls_configured [OF a] by (rule conjunct1)
  show "t = ctype c" using fetch_calls_configured [OF a] by (rule conjunct2)
next
  assume "AntacidParse k l pc \<in> set (trace (stdin_data env fs ps cfg db))"
  then show "k = ''carelink'' \<and> carelink cfg \<noteq> None \<and> pc = carelink cfg
      \<or> k = ''diasend'' \<and> diasend cfg \<noteq> None \<and> pc = diasend cfg
      \<or> k = ''tconnect'' \<and> tconnect cfg \<noteq> None \<and> pc = None
      \<or> k = ''dexcom'' \<and> dexcom cfg \<noteq> None \<and> pc = dexcom cfg"
    by (rule parse_calls_configured)
qed

theorem location_descriptors_witness:
  "tconnect job_tconnect = Some tconnect_config
   \<and> download good_env [] job_tconnect =
       ([AntacidFetch ''tconnect.xml'' (Some ''tconnect'') tconnect_config,
         StorageSave (Some ''g3'') ''tconnect.xml''],
        Inr [\<lparr>source = ''tconnect'', location = Some ''blob:tconnect.xml'', config = None\<rparr>])
   \<and> AntacidFetch ''tconnect.xml'' (Some ''tconnect'') tconnect_config
        \<in> set (trace (stdin_data good_env [] [] job_tconnect old_db))
   \<and> AntacidParse ''tconnect'' (Some ''blob:tconnect.xml'') None
        \<in> set (trace (stdin_data good_env [] [] job_tconnect old_db))
   \<and> download good_env [] job_g1 =
       ([AntacidFetch ''carelink.csv'' (Some ''carelink'') carelink_config,
         StorageSave (Some ''g1'') ''carelink.csv''],
        Inr [\<lparr>source = ''carelink'', location = Some ''blob:carelink.csv'',
               config = Some carelink_config\<rparr>])
   \<and> AntacidParse ''carelink'' (Some ''blob:carelink.csv'') (Some carelink_config)
        \<in> set (trace (stdin_data good_env [] [] job_g1 old_db))"
  using location_descriptors
    [of good_env "[]" job_tconnect
        "[AntacidFetch ''tconnect.xml'' (Some ''tconnect'') tconnect_config,
          StorageSave (Some ''g3'') ''tconnect.xml'']"
        "[\<lparr>source = ''tconnect'', location = Some ''blob:tconnect.xml'', config = None\<rparr>]"
        "''tconnect.xml''" "Some ''tconnect''" tconnect_config "[]" old_db
        "''tconnect''" "Some ''blob:tconnect.xml''" None]
  by (simp add: concrete_defs run_defs)

end
